theory Spec2Isabelle
  imports Main "HOL-Library.Sublist"
begin

section \<open>JavaScript values\<close>

text \<open>
  The facility (index.js, class GrcSlack) is JavaScript. Strings are lists of code units,
  \<open>length\<close> is \<open>String.prototype.length\<close> and \<open>take n\<close> is \<open>slice(0, n)\<close>. Property values
  that the code only tests for truthiness, interpolates into a template literal or hands to
  the hash are values of \<open>jsval\<close>; numbers are the integers.
\<close>

datatype jsval = JUndefined | JNull | JBool bool | JNum int | JStr string

datatype js_exception = TypeError string | Failure string

datatype 'a promise = Resolved 'a | Rejected js_exception

fun truthy :: "jsval \<Rightarrow> bool" where
  "truthy JUndefined = False"
| "truthy JNull = False"
| "truthy (JBool b) = b"
| "truthy (JNum n) = (n \<noteq> 0)"
| "truthy (JStr s) = (s \<noteq> [])"

fun nullish :: "jsval \<Rightarrow> bool" where
  "nullish JUndefined = True"
| "nullish JNull = True"
| "nullish v = False"

definition digit_char :: "nat \<Rightarrow> char" where
  "digit_char d = ''0123456789'' ! (d mod 10)"

fun string_of_nat :: "nat \<Rightarrow> string" where
  "string_of_nat n =
     (if n < 10 then [digit_char n] else string_of_nat (n div 10) @ [digit_char (n mod 10)])"

declare string_of_nat.simps [simp del]

definition string_of_int :: "int \<Rightarrow> string" where
  "string_of_int i = (if i < 0 then CHR ''-'' # string_of_nat (nat (- i)) else string_of_nat (nat i))"

text \<open>The text a value contributes to a template literal, \<^verbatim>\<open>`${v}`\<close>.\<close>

fun template :: "jsval \<Rightarrow> string" where
  "template JUndefined = ''undefined''"
| "template JNull = ''null''"
| "template (JBool b) = (if b then ''true'' else ''false'')"
| "template (JNum n) = string_of_int n"
| "template (JStr s) = s"

text \<open>\<open>a || d\<close> on an optional string and on an optional number of the configuration.\<close>

definition or_string :: "string option \<Rightarrow> string \<Rightarrow> string" where
  "or_string a d = (case a of None \<Rightarrow> d | Some s \<Rightarrow> if s = [] then d else s)"

definition or_nat :: "nat option \<Rightarrow> nat \<Rightarrow> nat" where
  "or_nat a d = (case a of None \<Rightarrow> d | Some n \<Rightarrow> if n = 0 then d else n)"

text \<open>\<open>Array.prototype.indexOf\<close>: the first position of the element, \<open>-1\<close> when absent.\<close>

fun indexOf :: "'a list \<Rightarrow> 'a \<Rightarrow> int" where
  "indexOf [] x = - 1"
| "indexOf (y # ys) x = (if y = x then 0 else (let i = indexOf ys x in if i < 0 then - 1 else i + 1))"

text \<open>Numbers that may be \<open>Infinity\<close> or \<open>-Infinity\<close> (the time range of a group).\<close>

datatype jsnum = NegInfinity | Finite int | Infinity

fun num_less :: "jsnum \<Rightarrow> jsnum \<Rightarrow> bool" where
  "num_less NegInfinity NegInfinity = False"
| "num_less NegInfinity b = True"
| "num_less (Finite a) NegInfinity = False"
| "num_less (Finite a) (Finite b) = (a < b)"
| "num_less (Finite a) Infinity = True"
| "num_less Infinity b = False"

section \<open>The error argument\<close>

text \<open>
  What the code observes of the \<open>err\<close> argument. A primitive (undefined, null, a boolean, a
  number, a string) has no \<open>message\<close>; an object is seen through its \<open>message\<close> property, its
  \<open>toString\<close> method, \<open>instanceof Object\<close>, \<open>instanceof Error\<close> and the text \<open>util.inspect\<close>
  gives for it. An object made with a null prototype is not an instance of \<open>Object\<close> and
  inherits neither \<open>toString\<close> nor \<open>valueOf\<close>.
\<close>

datatype toString_method = NotCallable | ToStringThrows js_exception | ToStringReturns jsval

record error_object =
  err_message :: jsval
  err_toString :: toString_method
  err_instanceofObject :: bool
  err_instanceofError :: bool
  err_inspect :: string

datatype err_arg = ErrPrim jsval | ErrObject error_object

text \<open>\<open>err?.message\<close>\<close>

fun opt_message :: "err_arg \<Rightarrow> jsval" where
  "opt_message (ErrPrim v) = JUndefined"
| "opt_message (ErrObject ob) = err_message ob"

text \<open>\<open>err?.toString()\<close>: undefined on null and undefined, a TypeError when the method is
  missing, whatever the method throws or returns otherwise.\<close>

fun opt_toString :: "err_arg \<Rightarrow> js_exception + jsval" where
  "opt_toString (ErrPrim v) = (if nullish v then Inr JUndefined else Inr (JStr (template v)))"
| "opt_toString (ErrObject ob) =
     (case err_toString ob of
        NotCallable \<Rightarrow> Inl (TypeError ''err.toString is not a function'')
      | ToStringThrows e \<Rightarrow> Inl e
      | ToStringReturns v \<Rightarrow> Inr v)"

text \<open>\<open>err.message\<close>, which throws on null and undefined.\<close>

fun prop_message :: "err_arg \<Rightarrow> js_exception + jsval" where
  "prop_message (ErrPrim v) =
     (if nullish v then Inl (TypeError ''Cannot read properties of null or undefined (reading message)'')
      else Inr JUndefined)"
| "prop_message (ErrObject ob) = Inr (err_message ob)"

text \<open>The text of an object in a template literal, \<^verbatim>\<open>`${err}`\<close>: the conversion calls
  \<open>toString\<close>, and throws a TypeError when there is no method to call (\<open>valueOf\<close>, tried
  next, is as absent as \<open>toString\<close> on the objects that come here).\<close>

definition object_template :: "error_object \<Rightarrow> js_exception + string" where
  "object_template ob =
     (case err_toString ob of
        NotCallable \<Rightarrow> Inl (TypeError ''Cannot convert object to primitive value'')
      | ToStringThrows e \<Rightarrow> Inl e
      | ToStringReturns v \<Rightarrow> Inr (template v))"

section \<open>Configuration, requests and the parts outside the repository\<close>

record error_batching_conf =
  interval :: "nat option"
  maxSize :: "nat option"
  maxMessageLength :: "nat option"

record slack_conf =
  enable :: bool
  worker :: "string option"
  max_length :: "nat option"
  channel :: string
  env :: "string option"
  errorBatching :: "error_batching_conf option"

text \<open>The outbound call \<open>this.caller.grc_bfx.req(worker, 'postSlackMsg', [{ channel, text }],
  { timeout: 10000 })\<close>.\<close>

record request =
  req_worker :: string
  req_action :: string
  req_channel :: string
  req_text :: string
  req_timeout :: nat

text \<open>An argument of \<open>logError\<close> after the error: a string or some other value.\<close>

datatype 'v logarg = ArgStr string | ArgVal 'v

text \<open>
  Node's library and the caller's transport are not code of this repository; their results
  are parameters of the model: the hex SHA-1 digest of a string, \<open>JSON.stringify\<close> of a
  payload and of an extras array, \<open>util.format\<close> of the inspected extras, \<open>formatTime\<close> of
  utils/date-time on the date made from a number, and the outcome of the transport call.
\<close>

record 'v node =
  sha1_hex :: "string \<Rightarrow> string"
  JSON_stringify :: "'v \<Rightarrow> string"
  JSON_stringify_array :: "'v list \<Rightarrow> string"
  util_format :: "'v logarg list \<Rightarrow> string"
  formatTime :: "jsnum \<Rightarrow> string"
  grc_req :: "request \<Rightarrow> jsval promise"

section \<open>Entries and the batch store\<close>

record 'v payload_item =
  payload :: 'v
  extras :: "'v list"

record 'v error_entry =
  errorMessage :: jsval
  sourceName :: string
  reqChannel :: string
  payloads :: "'v payload_item list"
  count :: nat
  firstSeen :: int
  lastSeen :: int

text \<open>
  The store is the LRU facility handed in as \<open>opts.lru\<close>. The code uses \<open>get\<close>, \<open>set\<close>,
  \<open>clear\<close>, \<open>cache.length\<close> and \<open>Object.values(cache.cache)\<close>, which lists the entries in the
  order their keys were first set. The model is the list of keys with their entries in that
  order; the facility's own eviction by capacity and by age is not part of index.js and is
  not modelled. An entry object is identified by the key it is stored under.
\<close>

type_synonym 'v entry_ref = "string \<times> 'v error_entry"

type_synonym 'v lru = "'v entry_ref list"

definition lru_get :: "'v lru \<Rightarrow> string \<Rightarrow> 'v error_entry option" where
  "lru_get batch k = map_of batch k"

fun lru_set :: "'v lru \<Rightarrow> string \<Rightarrow> 'v error_entry \<Rightarrow> 'v lru" where
  "lru_set [] k e = [(k, e)]"
| "lru_set (r # rs) k e = (if fst r = k then (k, e) # rs else r # lru_set rs k e)"

definition lru_length :: "'v lru \<Rightarrow> nat" where
  "lru_length batch = length batch"

definition lru_clear :: "'v lru \<Rightarrow> 'v lru" where
  "lru_clear batch = []"

record 'v grc_slack =
  conf :: slack_conf
  errorBatch :: "'v lru option"
  requests :: "request list"
  console :: "string list"

section \<open>message and logError\<close>

definition message :: "'v node \<Rightarrow> 'v grc_slack \<Rightarrow> string option \<Rightarrow> string \<Rightarrow> jsval promise \<times> 'v grc_slack" where
  "message X st ch msg =
     (if \<not> enable (conf st) then (Resolved (JBool False), st)
      else
        let slack = conf st;
            wrk = or_string (worker slack) ''rest:ext:slack'';
            maxLength = or_nat (max_length slack) 1024;
            envp = (case env slack of None \<Rightarrow> [] | Some e \<Rightarrow> if e = [] then [] else ''Env: '' @ e @ '', '');
            rawText = envp @ msg;
            text = (if length rawText > maxLength then take maxLength rawText else rawText);
            chan = or_string ch (channel slack);
            send = \<lparr>req_worker = wrk, req_action = ''postSlackMsg'', req_channel = chan,
                    req_text = text, req_timeout = 10000\<rparr>
        in (grc_req X send, st\<lparr>requests := requests st @ [send]\<rparr>))"

text \<open>The request \<open>message\<close> hands to the transport when dispatch is enabled.\<close>

definition message_request :: "slack_conf \<Rightarrow> string option \<Rightarrow> string \<Rightarrow> request" where
  "message_request slack ch msg =
     (let wrk = or_string (worker slack) ''rest:ext:slack'';
          maxLength = or_nat (max_length slack) 1024;
          envp = (case env slack of None \<Rightarrow> [] | Some e \<Rightarrow> if e = [] then [] else ''Env: '' @ e @ '', '');
          rawText = envp @ msg;
          text = (if length rawText > maxLength then take maxLength rawText else rawText);
          chan = or_string ch (channel slack)
      in \<lparr>req_worker = wrk, req_action = ''postSlackMsg'', req_channel = chan,
          req_text = text, req_timeout = 10000\<rparr>)"

text \<open>
  The text \<open>logError\<close> builds. \<open>error\<close> is the inspected text when \<open>err instanceof Object\<close>,
  and \<open>err\<close> itself otherwise, which the template literal then converts to a string: for an
  object outside \<open>Object\<close> that conversion can throw.
\<close>

definition logError_text :: "'v node \<Rightarrow> err_arg \<Rightarrow> 'v logarg list \<Rightarrow> js_exception + string" where
  "logError_text X err extra =
     (let extraP = (if extra \<noteq> [] then ''Extra: '' @ util_format X extra @ '', '' else []);
          errTag = (case err of ErrObject ob \<Rightarrow> if err_instanceofError ob then [] else ''Error: ''
                    | ErrPrim v \<Rightarrow> ''Error: '')
      in case (case err of
                 ErrObject ob \<Rightarrow> if err_instanceofObject ob then Inr (err_inspect ob) else object_template ob
               | ErrPrim v \<Rightarrow> Inr (template v)) of
           Inl e \<Rightarrow> Inl e
         | Inr error \<Rightarrow> Inr (extraP @ errTag @ error))"

text \<open>\<open>logError\<close> is not an async function: it throws (\<open>Inl\<close>, nothing sent) or returns the
  promise of \<open>message\<close>.\<close>

definition logError :: "'v node \<Rightarrow> 'v grc_slack \<Rightarrow> string option \<Rightarrow> err_arg \<Rightarrow> 'v logarg list \<Rightarrow> (js_exception + jsval promise) \<times> 'v grc_slack" where
  "logError X st ch err extra =
     (case logError_text X err extra of
        Inl e \<Rightarrow> (Inl e, st)
      | Inr text \<Rightarrow> (case message X st ch text of (p, st1) \<Rightarrow> (Inr p, st1)))"

text \<open>What an async function gets from a call it returns or awaits: the exception thrown
  by the call is a rejection.\<close>

fun settle :: "js_exception + 'a promise \<Rightarrow> 'a promise" where
  "settle (Inl e) = Rejected e"
| "settle (Inr p) = p"

section \<open>Fingerprints\<close>

definition createErrorGroupKey :: "string \<Rightarrow> string \<Rightarrow> string" where
  "createErrorGroupKey ch src = ch @ '':'' @ src"

text \<open>\<open>err?.message || err?.toString() || 'Unknown error'\<close>\<close>

definition errorMsg_of :: "err_arg \<Rightarrow> js_exception + jsval" where
  "errorMsg_of err =
     (let m = opt_message err in
      if truthy m then Inr m
      else (case opt_toString err of
              Inl e \<Rightarrow> Inl e
            | Inr t \<Rightarrow> if truthy t then Inr t else Inr (JStr ''Unknown error'')))"

text \<open>\<open>createHash('sha1').update(errorMsg).digest('hex')\<close>: \<open>update\<close> takes a string (or a
  buffer, which \<open>jsval\<close> does not have) and throws a TypeError on anything else.\<close>

definition sha1_of :: "'v node \<Rightarrow> jsval \<Rightarrow> js_exception + string" where
  "sha1_of X v =
     (case v of
        JStr s \<Rightarrow> Inr (sha1_hex X s)
      | _ \<Rightarrow> Inl (TypeError ''The data argument must be of type string or an instance of Buffer, TypedArray, or DataView''))"

definition createErrorKey :: "'v node \<Rightarrow> string \<Rightarrow> err_arg \<Rightarrow> string option \<Rightarrow> js_exception + string" where
  "createErrorKey X ch err src =
     (case errorMsg_of err of
        Inl e \<Rightarrow> Inl e
      | Inr errorMsg \<Rightarrow>
          (case sha1_of X errorMsg of
             Inl e \<Rightarrow> Inl e
           | Inr hash \<Rightarrow>
               Inr (createErrorGroupKey ch (case src of None \<Rightarrow> ''unknown'' | Some s \<Rightarrow> s) @ '':'' @ hash)))"

section \<open>logErrorEnqueue\<close>

text \<open>The body of the \<open>try\<close> block: the new contents of the store, or the exception thrown.\<close>

definition push_payload :: "'v error_entry \<Rightarrow> 'v payload_item \<Rightarrow> int \<Rightarrow> 'v error_entry" where
  "push_payload e item now =
     (let e1 = e\<lparr>count := count e + 1, lastSeen := now, payloads := payloads e @ [item]\<rparr>
      in if length (payloads e1) > 3 then e1\<lparr>payloads := tl (payloads e1)\<rparr> else e1)"

definition enqueue_try :: "'v node \<Rightarrow> 'v lru \<Rightarrow> string \<Rightarrow> err_arg \<Rightarrow> string \<Rightarrow> 'v \<Rightarrow> 'v list \<Rightarrow> int \<Rightarrow> js_exception + 'v lru" where
  "enqueue_try X batch ch err src p extra now =
     (case createErrorKey X ch err (Some src) of
        Inl e \<Rightarrow> Inl e
      | Inr errorKey \<Rightarrow>
          (case lru_get batch errorKey of
             None \<Rightarrow>
               (case prop_message err of
                  Inl e \<Rightarrow> Inl e
                | Inr m \<Rightarrow>
                    Inr (lru_set batch errorKey
                          \<lparr>errorMessage = m, sourceName = src, reqChannel = ch,
                           payloads = [\<lparr>payload = p, extras = extra\<rparr>],
                           count = 1, firstSeen = now, lastSeen = now\<rparr>))
           | Some errorEntry \<Rightarrow>
               Inr (lru_set batch errorKey (push_payload errorEntry \<lparr>payload = p, extras = extra\<rparr> now))))"

definition logErrorEnqueue :: "'v node \<Rightarrow> 'v grc_slack \<Rightarrow> string option \<Rightarrow> err_arg \<Rightarrow> string \<Rightarrow> 'v \<Rightarrow> 'v list \<Rightarrow> int \<Rightarrow> jsval promise \<times> 'v grc_slack" where
  "logErrorEnqueue X st ch err src p extra now =
     (case errorBatch st of
        None \<Rightarrow>
          (case logError X (st\<lparr>console := console st @ [''Error batching not initialized, falling back to direct log'']\<rparr>)
                  ch err (ArgStr src # ArgVal p # map ArgVal extra) of
             (r, st1) \<Rightarrow> (settle r, st1))
      | Some batch \<Rightarrow>
          (let ch1 = or_string ch (channel (conf st)) in
           case enqueue_try X batch ch1 err src p extra now of
             Inr batch1 \<Rightarrow> (Resolved JUndefined, st\<lparr>errorBatch := Some batch1\<rparr>)
           | Inl e \<Rightarrow>
               (case logError X (st\<lparr>console := console st @ [''Error batching failed, falling back to direct log'']\<rparr>)
                       (Some ch1) err (ArgStr src # ArgVal p # map ArgVal extra) of
                  (r, st1) \<Rightarrow>
                    (case settle r of
                       Rejected e1 \<Rightarrow> (Rejected e1, st1)
                     | Resolved v \<Rightarrow> (Resolved JUndefined, st1)))))"

section \<open>Formatting one group\<close>

definition formatTimeRange :: "'v node \<Rightarrow> jsnum \<Rightarrow> jsnum \<Rightarrow> string" where
  "formatTimeRange X earliest latest =
     (if earliest = latest then formatTime X earliest
      else formatTime X earliest @ '' - '' @ formatTime X latest)"

text \<open>The bullet that opens the line of an error type: three code units in index.js.\<close>

definition bullet :: string where
  "bullet = [CHR 0xE2, CHR 0x80, CHR 0xA2]"

definition report_header :: "string \<Rightarrow> nat \<Rightarrow> nat \<Rightarrow> string \<Rightarrow> string" where
  "report_header src totalErrors ntypes timeRange =
     ''*Batched Error Report - '' @ src @ ''*'' @ [CHR 0x0A] @
     ''*Summary:* '' @ string_of_nat totalErrors @ '' errors across '' @ string_of_nat ntypes @
     '' types ('' @ timeRange @ '')'' @ [CHR 0x0A, CHR 0x0A]"

definition type_header :: "'v error_entry \<Rightarrow> string" where
  "type_header e =
     bullet @ '' *'' @ template (errorMessage e) @ ''* ('' @ string_of_nat (count e) @ ''x)'' @ [CHR 0x0A] @
     ''  Payloads:'' @ [CHR 0x0A]"

definition payload_line :: "'v node \<Rightarrow> 'v payload_item \<Rightarrow> string" where
  "payload_line X item =
     (let payloadStr = ''    - '' @ JSON_stringify X (payload item) @ [CHR 0x0A]
      in if extras item \<noteq> []
         then payloadStr @ ''     Extras: '' @ JSON_stringify_array X (extras item) @ [CHR 0x0A]
         else payloadStr)"

definition truncation_marker :: "int \<Rightarrow> string" where
  "truncation_marker n = [CHR 0x0A] @ ''... message truncated ('' @ string_of_int n @ '' more error types)''"

definition more_types_note :: "nat \<Rightarrow> string" where
  "more_types_note n = [CHR 0x0A] @ ''... and '' @ string_of_nat n @ '' more error types''"

text \<open>The inner loop over the payloads of one error type: the message and \<open>truncated\<close>.\<close>

fun render_payloads :: "'v node \<Rightarrow> nat \<Rightarrow> string \<Rightarrow> string \<Rightarrow> 'v payload_item list \<Rightarrow> string \<times> bool" where
  "render_payloads X lim marker msg [] = (msg, False)"
| "render_payloads X lim marker msg (item # items) =
     (let payloadStr = payload_line X item
      in if length msg + length payloadStr > lim then (msg @ marker, True)
         else render_payloads X lim marker (msg @ payloadStr) items)"

text \<open>The outer loop over \<open>errors.slice(0, 10)\<close>; \<open>errs\<close> is the whole array, which the marker
  reads.\<close>

fun render_types :: "'v node \<Rightarrow> nat \<Rightarrow> 'v entry_ref list \<Rightarrow> string \<Rightarrow> 'v entry_ref list \<Rightarrow> string \<times> bool" where
  "render_types X lim errs msg [] = (msg, False)"
| "render_types X lim errs msg (error # rest) =
     (let marker = truncation_marker (int (length errs) - indexOf errs error)
      in case render_payloads X lim marker (msg @ type_header (snd error)) (payloads (snd error)) of
           (msg1, True) \<Rightarrow> (msg1, True)
         | (msg1, False) \<Rightarrow> render_types X lim errs msg1 rest)"

definition maxMessageLength_of :: "slack_conf \<Rightarrow> nat" where
  "maxMessageLength_of c =
     or_nat (case errorBatching c of None \<Rightarrow> None | Some eb \<Rightarrow> maxMessageLength eb) 4000"

definition batched_report :: "'v node \<Rightarrow> slack_conf \<Rightarrow> string \<Rightarrow> 'v entry_ref list \<Rightarrow> nat \<Rightarrow> jsnum \<Rightarrow> jsnum \<Rightarrow> string" where
  "batched_report X c src errs totalErrors earliest latest =
     (let timeRange = formatTimeRange X earliest latest;
          msg0 = report_header src totalErrors (length errs) timeRange
      in case render_types X (maxMessageLength_of c) errs msg0 (take 10 errs) of
           (msg1, truncated) \<Rightarrow>
             if length errs > 10 \<and> \<not> truncated then msg1 @ more_types_note (length errs - 10) else msg1)"

text \<open>
  Two texts to state what the loops produce: an error type rendered in full (its header and
  all its payload lines), and the message as it stands once the types before index \<open>i\<close> are
  rendered in full, the header of type \<open>i\<close> is appended and \<open>k\<close> of its payload lines are.
\<close>

definition full_type :: "'v node \<Rightarrow> 'v entry_ref \<Rightarrow> string" where
  "full_type X e = type_header (snd e) @ concat (map (payload_line X) (payloads (snd e)))"

definition rendered_upto :: "'v node \<Rightarrow> string \<Rightarrow> 'v entry_ref list \<Rightarrow> nat \<Rightarrow> nat \<Rightarrow> string" where
  "rendered_upto X msg errs i k =
     msg @ concat (map (full_type X) (take i errs)) @ type_header (snd (errs ! i)) @
     concat (map (payload_line X) (take k (payloads (snd (errs ! i)))))"

definition sendBatchedErrorMessage :: "'v node \<Rightarrow> 'v grc_slack \<Rightarrow> string \<Rightarrow> string \<Rightarrow> 'v entry_ref list \<Rightarrow> nat \<Rightarrow> jsnum \<Rightarrow> jsnum \<Rightarrow> jsval promise \<times> 'v grc_slack" where
  "sendBatchedErrorMessage X st ch src errs totalErrors earliest latest =
     (case logError X st (Some ch)
             (ErrPrim (JStr (batched_report X (conf st) src errs totalErrors earliest latest))) [] of
        (r, st1) \<Rightarrow> (settle r, st1))"

section \<open>The flush\<close>

record 'v error_group =
  errors :: "'v entry_ref list"
  totalCount :: nat
  earliestTime :: jsnum
  latestTime :: jsnum

definition new_group :: "'v error_group" where
  "new_group = \<lparr>errors = [], totalCount = 0, earliestTime = Infinity, latestTime = NegInfinity\<rparr>"

text \<open>A \<open>Map\<close> keeps its keys in insertion order; setting a present key keeps its place.\<close>

fun map_set :: "(string \<times> 'a) list \<Rightarrow> string \<Rightarrow> 'a \<Rightarrow> (string \<times> 'a) list" where
  "map_set [] k v = [(k, v)]"
| "map_set (p # ps) k v = (if fst p = k then (k, v) # ps else p # map_set ps k v)"

definition add_to_group :: "'v error_group \<Rightarrow> 'v entry_ref \<Rightarrow> 'v error_group" where
  "add_to_group g r =
     (let firstTime = Finite (firstSeen (snd r));
          lastTime = Finite (lastSeen (snd r))
      in g\<lparr>errors := errors g @ [r],
            totalCount := totalCount g + count (snd r),
            earliestTime := (if num_less firstTime (earliestTime g) then firstTime else earliestTime g),
            latestTime := (if num_less (latestTime g) lastTime then lastTime else latestTime g)\<rparr>)"

fun group_entries :: "(string \<times> 'v error_group) list \<Rightarrow> 'v entry_ref list \<Rightarrow> (string \<times> 'v error_group) list" where
  "group_entries errorGroups [] = errorGroups"
| "group_entries errorGroups (r # rs) =
     (let groupKey = createErrorGroupKey (reqChannel (snd r)) (sourceName (snd r));
          g = (case map_of errorGroups groupKey of None \<Rightarrow> new_group | Some g0 \<Rightarrow> g0)
      in group_entries (map_set errorGroups groupKey (add_to_group g r)) rs)"

text \<open>The dispatch loop: one awaited send per group, stopped by the first rejection.\<close>

fun dispatch_groups :: "'v node \<Rightarrow> 'v grc_slack \<Rightarrow> 'v error_group list \<Rightarrow> js_exception option \<times> 'v grc_slack" where
  "dispatch_groups X st [] = (None, st)"
| "dispatch_groups X st (g # gs) =
     (case errors g of
        [] \<Rightarrow> (Some (TypeError ''Cannot destructure property reqChannel of undefined''), st)
      | r # rs \<Rightarrow>
          (case sendBatchedErrorMessage X st (reqChannel (snd r)) (sourceName (snd r)) (errors g)
                  (totalCount g) (earliestTime g) (latestTime g) of
             (Rejected e, st1) \<Rightarrow> (Some e, st1)
           | (Resolved v, st1) \<Rightarrow> dispatch_groups X st1 gs))"

definition processBatchedErrors :: "'v node \<Rightarrow> 'v grc_slack \<Rightarrow> jsval promise \<times> 'v grc_slack" where
  "processBatchedErrors X st =
     (case errorBatch st of
        None \<Rightarrow> (Resolved JUndefined, st)
      | Some batch \<Rightarrow>
          if lru_length batch = 0 then (Resolved JUndefined, st)
          else
            (let errorGroups = group_entries [] batch in
             case dispatch_groups X st (map snd errorGroups) of
               (None, st1) \<Rightarrow> (Resolved JUndefined, st1\<lparr>errorBatch := map_option lru_clear (errorBatch st1)\<rparr>)
             | (Some e, st1) \<Rightarrow>
                 (Resolved JUndefined,
                  st1\<lparr>console := console st1 @ [''Failed to process batched errors''],
                      errorBatch := map_option lru_clear (errorBatch st1)\<rparr>)))"

section \<open>Construction, repeated enqueues and the values the tests use\<close>

text \<open>The constructor starts batching only when \<open>conf.errorBatching\<close> and \<open>opts.lru\<close> are
  both there; the store starts empty.\<close>

definition new_GrcSlack :: "slack_conf \<Rightarrow> bool \<Rightarrow> 'v grc_slack" where
  "new_GrcSlack c has_lru =
     \<lparr>conf = c,
      errorBatch = (if errorBatching c \<noteq> None \<and> has_lru then Some [] else None),
      requests = [], console = []\<rparr>"

text \<open>Enqueues of one error under one channel and source, one after the other, each with its
  payload, its extras and the time it happens at.\<close>

fun enqueue_many :: "'v node \<Rightarrow> 'v grc_slack \<Rightarrow> string option \<Rightarrow> err_arg \<Rightarrow> string \<Rightarrow> ('v \<times> 'v list \<times> int) list \<Rightarrow> 'v grc_slack" where
  "enqueue_many X st ch err src [] = st"
| "enqueue_many X st ch err src (c # cs) =
     enqueue_many X (snd (logErrorEnqueue X st ch err src (fst c) (fst (snd c)) (snd (snd c)))) ch err src cs"

definition item_of :: "'v \<times> 'v list \<times> int \<Rightarrow> 'v payload_item" where
  "item_of c = \<lparr>payload = fst c, extras = fst (snd c)\<rparr>"

text \<open>\<open>new Error(msg)\<close>: the message, and \<open>toString\<close> giving the name alone when the message
  is empty. The inspected text stands for the message with the stack.\<close>

definition new_Error :: "string \<Rightarrow> err_arg" where
  "new_Error msg =
     (let shown = (if msg = [] then ''Error'' else ''Error: '' @ msg)
      in ErrObject \<lparr>err_message = JStr msg, err_toString = ToStringReturns (JStr shown),
                    err_instanceofObject = True, err_instanceofError = True, err_inspect = shown\<rparr>)"

text \<open>An object made by \<open>Object.create(null)\<close>: no \<open>message\<close>, no \<open>toString\<close>, not an instance
  of \<open>Object\<close>.\<close>

definition bare_object :: err_arg where
  "bare_object =
     ErrObject \<lparr>err_message = JUndefined, err_toString = NotCallable,
                err_instanceofObject = False, err_instanceofError = False,
                err_inspect = ''[Object: null prototype] {}''\<rparr>"

text \<open>The configuration of the test suite, and stand-ins for the outside parts: payloads are
  given as their JSON text, every time prints as one fixed text, the digest is a tagged
  copy of its input, and the transport answers every request.\<close>

definition mockConf :: slack_conf where
  "mockConf =
     \<lparr>enable = True, worker = Some ''rest:ext:slack'', max_length = Some 1024,
      channel = ''default-channel'', env = Some ''test'',
      errorBatching = Some \<lparr>interval = Some 5000, maxSize = Some 10, maxMessageLength = Some 4000\<rparr>\<rparr>"

definition mock_node :: "string node" where
  "mock_node =
     \<lparr>sha1_hex = (\<lambda>s. ''sha1-'' @ s),
      JSON_stringify = (\<lambda>p. p),
      JSON_stringify_array = (\<lambda>ps. ''['' @ concat ps @ '']''),
      util_format = (\<lambda>args. concat (map (\<lambda>a. case a of ArgStr s \<Rightarrow> s | ArgVal v \<Rightarrow> v) args)),
      formatTime = (\<lambda>t. ''10:00:00''),
      grc_req = (\<lambda>rq. Resolved (JBool True))\<rparr>"

text \<open>The same with a transport that rejects every request, as on a timeout.\<close>

definition rejecting_node :: "string node" where
  "rejecting_node = mock_node\<lparr>grc_req := (\<lambda>rq. Rejected (Failure ''ERR_TIMEOUT''))\<rparr>"

text \<open>An instance whose store holds one entry, as after one enqueue of \<open>Error('Test error')\<close>
  under channel \<open>test\<close> and source \<open>func1\<close>.\<close>

definition one_entry_instance :: "string grc_slack" where
  "one_entry_instance =
     \<lparr>conf = mockConf,
      errorBatch = Some [(''test:func1:sha1-Test error'',
         \<lparr>errorMessage = JStr ''Test error'', sourceName = ''func1'', reqChannel = ''test'',
          payloads = [\<lparr>payload = ''{}'', extras = []\<rparr>], count = 1, firstSeen = 5, lastSeen = 5\<rparr>)],
      requests = [], console = []\<rparr>"

text \<open>The test configuration with \<open>errorBatching.maxSize\<close> set to 1.\<close>

definition maxSize1_conf :: slack_conf where
  "maxSize1_conf =
     mockConf\<lparr>errorBatching := Some \<lparr>interval = Some 5000, maxSize = Some 1, maxMessageLength = Some 4000\<rparr>\<rparr>"

text \<open>The test configuration with \<open>errorBatching.maxMessageLength\<close> set to 200, as the
  truncation test sets it, and two arrays of errors for one group.\<close>

definition limit200_conf :: slack_conf where
  "limit200_conf =
     mockConf\<lparr>errorBatching := Some \<lparr>interval = Some 5000, maxSize = Some 10, maxMessageLength = Some 200\<rparr>\<rparr>"

definition long_message_errors :: "string entry_ref list" where
  "long_message_errors =
     [(''test:testFunc:sha1-long'',
       \<lparr>errorMessage = JStr (replicate 300 CHR ''a''), sourceName = ''testFunc'', reqChannel = ''test'',
        payloads = [\<lparr>payload = ''{}'', extras = []\<rparr>], count = 1, firstSeen = 0, lastSeen = 0\<rparr>)]"


definition two_type_errors :: "string entry_ref list" where
  "two_type_errors =
     [(''test:testFunc:sha1-Error 0'',
       \<lparr>errorMessage = JStr ''Error 0'', sourceName = ''testFunc'', reqChannel = ''test'',
        payloads = [\<lparr>payload = ''{}'', extras = []\<rparr>], count = 1, firstSeen = 0, lastSeen = 0\<rparr>),
      (''test:testFunc:sha1-Error 1'',
       \<lparr>errorMessage = JStr ''Error 1'', sourceName = ''testFunc'', reqChannel = ''test'',
        payloads = [\<lparr>payload = replicate 100 CHR ''d'', extras = []\<rparr>], count = 1, firstSeen = 0, lastSeen = 0\<rparr>)]"

text \<open>The distinct elements of a list in the order in which they first occur, the group key
  of an entry and its (channel, source) pair.\<close>

definition discovery_order :: "'a list \<Rightarrow> 'a list" where
  "discovery_order xs = rev (remdups (rev xs))"


definition pair_of :: "'v entry_ref \<Rightarrow> string \<times> string" where
  "pair_of r = (reqChannel (snd r), sourceName (snd r))"

text \<open>
  The group of a list of entries as the data model describes it: the entries, the sum of
  their counts, the least \<open>firstSeen\<close> and the greatest \<open>lastSeen\<close> (\<open>Infinity\<close> and
  \<open>-Infinity\<close> when there is none). The flush builds its groups one entry at a time; this
  is what each of them is compared with.
\<close>

definition group_of :: "'v entry_ref list \<Rightarrow> 'v error_group" where
  "group_of es =
     \<lparr>errors = es,
      totalCount = sum_list (map (\<lambda>r. count (snd r)) es),
      earliestTime = (if es = [] then Infinity else Finite (Min (set (map (\<lambda>r. firstSeen (snd r)) es)))),
      latestTime = (if es = [] then NegInfinity else Finite (Max (set (map (\<lambda>r. lastSeen (snd r)) es))))\<rparr>"



text \<open>Entries as one enqueue of \<open>new Error(msg)\<close> with payload \<open>{}\<close> creates them, the
  store of the grouping test (three pairs of channel and source), a store whose two entries
  have different pairs with one group key, and an instance holding a given store.\<close>

definition test_entry :: "string \<Rightarrow> string \<Rightarrow> string \<Rightarrow> int \<Rightarrow> string error_entry" where
  "test_entry ch src msg t =
     \<lparr>errorMessage = JStr msg, sourceName = src, reqChannel = ch,
      payloads = [\<lparr>payload = ''{}'', extras = []\<rparr>], count = 1, firstSeen = t, lastSeen = t\<rparr>"


definition colon_batch :: "string lru" where
  "colon_batch =
     [(''a:b:c:sha1-Error 1'', test_entry ''a:b'' ''c'' ''Error 1'' 1),
      (''a:b:c:sha1-Error 2'', test_entry ''a'' ''b:c'' ''Error 2'' 2)]"

definition instance_with :: "string lru \<Rightarrow> string grc_slack" where
  "instance_with batch = \<lparr>conf = mockConf, errorBatch = Some batch, requests = [], console = []\<rparr>"

section \<open>What the sends leave alone\<close>

lemma message_errorBatch [simp]: "errorBatch (snd (message X st ch msg)) = errorBatch st"
  by (simp add: message_def Let_def)

lemma message_conf [simp]: "conf (snd (message X st ch msg)) = conf st"
  by (simp add: message_def Let_def)

lemma logError_errorBatch [simp]: "errorBatch (snd (logError X st ch err extra)) = errorBatch st"
  by (cases "logError_text X err extra") (simp_all add: logError_def case_prod_beta)

lemma logError_conf [simp]: "conf (snd (logError X st ch err extra)) = conf st"
  by (cases "logError_text X err extra") (simp_all add: logError_def case_prod_beta)

lemma send_message:
  "sendBatchedErrorMessage X st ch src errs n a b =
     message X st (Some ch) (''Error: '' @ batched_report X (conf st) src errs n a b)"
  by (simp add: sendBatchedErrorMessage_def logError_def logError_text_def case_prod_beta)

lemma send_errorBatch [simp]:
  "errorBatch (snd (sendBatchedErrorMessage X st ch src errs n a b)) = errorBatch st"
  by (simp add: send_message)

lemma send_conf [simp]:
  "conf (snd (sendBatchedErrorMessage X st ch src errs n a b)) = conf st"
  by (simp add: send_message)

lemma dispatch_errorBatch: "errorBatch (snd (dispatch_groups X st gs)) = errorBatch st"
proof (induction gs arbitrary: st)
  case Nil
  then show ?case by simp
next
  case (Cons g gs)
  show ?case
  proof (cases "errors g")
    case Nil
    then show ?thesis by simp
  next
    case (Cons r rs)
    obtain out st1 where s: "sendBatchedErrorMessage X st (reqChannel (snd r)) (sourceName (snd r)) (errors g)
                  (totalCount g) (earliestTime g) (latestTime g) = (out, st1)"
      by (cases "sendBatchedErrorMessage X st (reqChannel (snd r)) (sourceName (snd r)) (errors g)
                  (totalCount g) (earliestTime g) (latestTime g)")
    have e: "errorBatch st1 = errorBatch st"
      using send_errorBatch [of X st "reqChannel (snd r)" "sourceName (snd r)" "errors g" "totalCount g" "earliestTime g" "latestTime g"] s
      by simp
    show ?thesis
      using Cons s e Cons.IH [of st1] by (cases out) simp_all
  qed
qed


section \<open>Defaults, the console and the store\<close>

lemma or_string_idem [simp]: "or_string (Some (or_string ch d)) d = or_string ch d"
  by (simp add: or_string_def split: option.splits)

lemma message_console_irrelevant:
  "fst (message X (st\<lparr>console := c\<rparr>) ch msg) = fst (message X st ch msg) \<and>
   requests (snd (message X (st\<lparr>console := c\<rparr>) ch msg)) = requests (snd (message X st ch msg)) \<and>
   console (snd (message X (st\<lparr>console := c\<rparr>) ch msg)) = c"
  by (simp add: message_def Let_def)

lemma message_default_channel:
  "message X st (Some (or_string ch (channel (conf st)))) msg = message X st ch msg"
  by (simp add: message_def Let_def)

lemma logError_console_irrelevant:
  "fst (logError X (st\<lparr>console := c\<rparr>) ch err extra) = fst (logError X st ch err extra) \<and>
   requests (snd (logError X (st\<lparr>console := c\<rparr>) ch err extra)) = requests (snd (logError X st ch err extra))"
proof (cases "logError_text X err extra")
  case (Inl e)
  then show ?thesis by (simp add: logError_def)
next
  case (Inr t)
  then show ?thesis
    using message_console_irrelevant [where X=X and st=st and c=c and ch=ch and msg=t]
    by (simp add: logError_def case_prod_beta)
qed

lemma logError_default_channel:
  "logError X st (Some (or_string ch (channel (conf st)))) err extra = logError X st ch err extra"
proof (cases "logError_text X err extra")
  case (Inl e)
  then show ?thesis by (simp add: logError_def)
next
  case (Inr t)
  then show ?thesis
    using message_default_channel [where X=X and st=st and ch=ch and msg=t]
    by (simp add: logError_def)
qed

lemma message_enabled:
  "enable (conf st) \<Longrightarrow>
     message X st ch msg =
       (grc_req X (message_request (conf st) ch msg),
        st\<lparr>requests := requests st @ [message_request (conf st) ch msg]\<rparr>)"
  by (simp add: message_def message_request_def Let_def)

lemma message_disabled:
  "\<not> enable (conf st) \<Longrightarrow> message X st ch msg = (Resolved (JBool False), st)"
  by (simp add: message_def)

lemma logError_thrown:
  "logError_text X err extra = Inl e \<Longrightarrow> logError X st ch err extra = (Inl e, st)"
  by (simp add: logError_def)

lemma logError_returned:
  "logError_text X err extra = Inr t \<Longrightarrow>
     logError X st ch err extra = (Inr (fst (message X st ch t)), snd (message X st ch t))"
  by (simp add: logError_def case_prod_beta)

lemma logError_failure_cases:
  "settle (fst (logError X st ch err extra)) = Rejected e \<Longrightarrow>
     (logError_text X err extra = Inl e \<and> requests (snd (logError X st ch err extra)) = requests st) \<or>
     (\<exists>t. logError_text X err extra = Inr t \<and> enable (conf st) \<and>
          grc_req X (message_request (conf st) ch t) = Rejected e \<and>
          requests (snd (logError X st ch err extra)) = requests st @ [message_request (conf st) ch t])"
proof (cases "logError_text X err extra")
  case (Inl e0)
  assume "settle (fst (logError X st ch err extra)) = Rejected e"
  then show ?thesis using Inl by (simp add: logError_thrown)
next
  case (Inr t)
  assume r: "settle (fst (logError X st ch err extra)) = Rejected e"
  show ?thesis
  proof (cases "enable (conf st)")
    case True
    then show ?thesis using r Inr by (simp add: logError_returned message_enabled)
  next
    case False
    then show ?thesis using r Inr by (simp add: logError_returned message_disabled)
  qed
qed

lemma lru_set_map_of: "map_of (lru_set b k e) = (map_of b)(k \<mapsto> e)"
  by (induction b) (auto simp: fun_eq_iff)

lemma lru_set_length: "length (lru_set b k e) = (if k \<in> fst ` set b then length b else Suc (length b))"
  by (induction b) auto

lemma lru_set_keys: "fst ` set (lru_set b k e) = insert k (fst ` set b)"
  by (induction b) auto

lemma enqueue_try_keeps:
  "enqueue_try X b ch err src p extra now = Inr b1 \<Longrightarrow>
     (\<exists>k e. b1 = lru_set b k e)"
  by (auto simp: enqueue_try_def split: sum.splits option.splits)


section \<open>Enqueueing\<close>

lemma lru_get_set [simp]: "lru_get (lru_set b k e) k = Some e"
  by (simp add: lru_get_def lru_set_map_of)

lemma last3_append:
  "drop (length (drop (length xs - 3) xs @ ys) - 3) (drop (length xs - 3) xs @ ys)
     = drop (length (xs @ ys) - 3) (xs @ ys)"
  by (cases "length xs \<le> 3") (auto simp: add.commute)

lemma push_payload_window:
  "length (payloads e) \<le> 3 \<Longrightarrow>
     payloads (push_payload e item now) = drop (length (payloads e @ [item]) - 3) (payloads e @ [item]) \<and>
     length (payloads (push_payload e item now)) \<le> 3 \<and>
     count (push_payload e item now) = Suc (count e)"
proof -
  assume a: "length (payloads e) \<le> 3"
  have t: "tl xs = drop 1 xs" for xs :: "'a payload_item list"
    by (simp add: drop_Suc)
  show ?thesis
  proof (cases "length (payloads e) = 3")
    case True
    then show ?thesis by (simp add: push_payload_def Let_def t del: drop_append)
  next
    case False
    then show ?thesis using a by (simp add: push_payload_def Let_def)
  qed
qed

lemma enqueue_existing:
  "errorBatch st = Some b \<Longrightarrow>
   createErrorKey X (or_string ch (channel (conf st))) err (Some src) = Inr k \<Longrightarrow>
   lru_get b k = Some e \<Longrightarrow>
     logErrorEnqueue X st ch err src p ex now =
       (Resolved JUndefined, st\<lparr>errorBatch := Some (lru_set b k (push_payload e \<lparr>payload = p, extras = ex\<rparr> now))\<rparr>)"
  by (simp add: logErrorEnqueue_def enqueue_try_def)

lemma enqueue_new:
  "errorBatch st = Some b \<Longrightarrow>
   createErrorKey X (or_string ch (channel (conf st))) err (Some src) = Inr k \<Longrightarrow>
   lru_get b k = None \<Longrightarrow> prop_message err = Inr m \<Longrightarrow>
     logErrorEnqueue X st ch err src p ex now =
       (Resolved JUndefined,
        st\<lparr>errorBatch := Some (lru_set b k
          \<lparr>errorMessage = m, sourceName = src, reqChannel = or_string ch (channel (conf st)),
           payloads = [\<lparr>payload = p, extras = ex\<rparr>], count = 1, firstSeen = now, lastSeen = now\<rparr>)\<rparr>)"
  by (simp add: logErrorEnqueue_def enqueue_try_def)

lemma enqueue_many_existing:
  "errorBatch st = Some b \<Longrightarrow>
   createErrorKey X (or_string ch (channel (conf st))) err (Some src) = Inr k \<Longrightarrow>
   lru_get b k = Some e \<Longrightarrow> length (payloads e) \<le> 3 \<Longrightarrow>
     \<exists>b1 e1. errorBatch (enqueue_many X st ch err src cs) = Some b1 \<and> lru_get b1 k = Some e1 \<and>
       payloads e1 = drop (length (payloads e @ map item_of cs) - 3) (payloads e @ map item_of cs) \<and>
       count e1 = count e + length cs"
proof (induction cs arbitrary: st b e)
  case Nil
  then show ?case by simp
next
  case (Cons c cs)
  let ?e1 = "push_payload e (item_of c) (snd (snd c))"
  let ?b1 = "lru_set b k ?e1"
  let ?st1 = "st\<lparr>errorBatch := Some ?b1\<rparr>"
  have step: "logErrorEnqueue X st ch err src (fst c) (fst (snd c)) (snd (snd c)) = (Resolved JUndefined, ?st1)"
    using enqueue_existing [OF Cons.prems(1) Cons.prems(2) Cons.prems(3)] by (simp add: item_of_def)
  note w = push_payload_window [OF Cons.prems(4), of "item_of c" "snd (snd c)"]
  have k1: "createErrorKey X (or_string ch (channel (conf ?st1))) err (Some src) = Inr k"
    using Cons.prems(2) by simp
  obtain b2 e2 where r: "errorBatch (enqueue_many X ?st1 ch err src cs) = Some b2" "lru_get b2 k = Some e2"
      "payloads e2 = drop (length (payloads ?e1 @ map item_of cs) - 3) (payloads ?e1 @ map item_of cs)"
      "count e2 = count ?e1 + length cs"
    using Cons.IH [of ?st1 ?b1 ?e1] k1 w by auto
  have p: "payloads e2 = drop (length (payloads e @ map item_of (c # cs)) - 3) (payloads e @ map item_of (c # cs))"
    using r(3) w last3_append [of "payloads e @ [item_of c]" "map item_of cs"] by simp
  show ?case
    using step r(1) r(2) r(4) p w by simp
qed


section \<open>Rendering\<close>

lemma render_payloads_shape:
  "render_payloads X lim mk msg items = (out, tr) \<Longrightarrow>
     \<exists>body. out = msg @ body @ (if tr then mk else []) \<and> length (msg @ body) \<le> max (length msg) lim"
proof (induction items arbitrary: msg)
  case Nil
  then show ?case by auto
next
  case (Cons item items)
  show ?case
  proof (cases "length msg + length (payload_line X item) > lim")
    case True
    then show ?thesis using Cons.prems by (auto simp: Let_def)
  next
    case False
    then have r: "render_payloads X lim mk (msg @ payload_line X item) items = (out, tr)"
      using Cons.prems by (simp add: Let_def)
    obtain body where b: "out = (msg @ payload_line X item) @ body @ (if tr then mk else [])"
        "length ((msg @ payload_line X item) @ body) \<le> max (length (msg @ payload_line X item)) lim"
      using Cons.IH [OF r] by blast
    have "out = msg @ (payload_line X item @ body) @ (if tr then mk else [])"
      using b(1) by simp
    moreover have "length (msg @ (payload_line X item @ body)) \<le> max (length msg) lim"
      using b(2) False by simp
    ultimately show ?thesis by blast
  qed
qed

lemma render_types_shape:
  "render_types X lim errs msg rs = (out, tr) \<Longrightarrow>
     \<exists>body n. out = msg @ body @ (if tr then truncation_marker n else []) \<and>
       length (msg @ body) \<le> max (length msg) lim + (\<Sum>e\<leftarrow>rs. length (type_header (snd e)))"
proof (induction rs arbitrary: msg)
  case Nil
  then show ?case by auto
next
  case (Cons r rs)
  let ?mk = "truncation_marker (int (length errs) - indexOf errs r)"
  let ?m1 = "msg @ type_header (snd r)"
  obtain out1 tr1 where p: "render_payloads X lim ?mk ?m1 (payloads (snd r)) = (out1, tr1)"
    by (cases "render_payloads X lim ?mk ?m1 (payloads (snd r))")
  obtain body1 where b1: "out1 = ?m1 @ body1 @ (if tr1 then ?mk else [])"
      "length (?m1 @ body1) \<le> max (length ?m1) lim"
    using render_payloads_shape [OF p] by blast
  show ?case
  proof (cases tr1)
    case True
    then have o: "out = out1" "tr = True"
      using Cons.prems p by (simp_all add: Let_def)
    have "out = msg @ (type_header (snd r) @ body1) @ (if tr then ?mk else [])"
      using o b1(1) True by simp
    moreover have "length (msg @ (type_header (snd r) @ body1)) \<le>
        max (length msg) lim + (\<Sum>e\<leftarrow>r # rs. length (type_header (snd e)))"
      using b1(2) by simp
    ultimately show ?thesis by blast
  next
    case False
    then have r2: "render_types X lim errs out1 rs = (out, tr)"
      using Cons.prems p by (simp add: Let_def)
    obtain body2 n where b2: "out = out1 @ body2 @ (if tr then truncation_marker n else [])"
        "length (out1 @ body2) \<le> max (length out1) lim + (\<Sum>e\<leftarrow>rs. length (type_header (snd e)))"
      using Cons.IH [OF r2] by blast
    have o1: "out1 = ?m1 @ body1" using b1(1) False by simp
    have "out = msg @ (type_header (snd r) @ body1 @ body2) @ (if tr then truncation_marker n else [])"
      using b2(1) o1 by simp
    moreover have "length (msg @ (type_header (snd r) @ body1 @ body2)) \<le>
        max (length msg) lim + (\<Sum>e\<leftarrow>r # rs. length (type_header (snd e)))"
      using b2(2) b1(2) o1 by simp
    ultimately show ?thesis by blast
  qed
qed

lemma indexOf_nonneg: "x \<in> set xs \<Longrightarrow> 0 \<le> indexOf xs x"
  by (induction xs) (auto simp: Let_def)

lemma indexOf_append_fresh: "x \<notin> set ds \<Longrightarrow> indexOf (ds @ x # ys) x = int (length ds)"
  by (induction ds) (auto simp: Let_def)

lemma indexOf_nth_distinct:
  "distinct xs \<Longrightarrow> i < length xs \<Longrightarrow> indexOf xs (xs ! i) = int i"
proof -
  assume d: "distinct xs" and i: "i < length xs"
  have e: "xs = take i xs @ xs ! i # drop (Suc i) xs"
    using i by (rule id_take_nth_drop)
  have "distinct (take i xs @ xs ! i # drop (Suc i) xs)"
    using d e by simp
  then have f: "xs ! i \<notin> set (take i xs)"
    by simp
  have "indexOf (take i xs @ xs ! i # drop (Suc i) xs) (xs ! i) = int (length (take i xs))"
    using f by (rule indexOf_append_fresh)
  then show ?thesis
    using e i by simp
qed

lemma truncation_marker_text:
  "truncation_marker n = CHR 0x0A # ''... message truncated ('' @ string_of_int n @ '' more error types)''"
  by (simp add: truncation_marker_def)

lemma more_types_note_text:
  "more_types_note n = CHR 0x0A # ''... and '' @ string_of_nat n @ '' more error types''"
  by (simp add: more_types_note_def)

lemma string_of_int_nat: "string_of_int (int n) = string_of_nat n"
  by (simp add: string_of_int_def)

lemma rendered_upto_Suc:
  "k < length (payloads (snd (errs ! i))) \<Longrightarrow>
     rendered_upto X msg errs i (Suc k) =
       rendered_upto X msg errs i k @ payload_line X (payloads (snd (errs ! i)) ! k)"
  by (simp add: rendered_upto_def take_Suc_conv_app_nth)

lemma rendered_upto_first:
  "rendered_upto X msg (r # rs) 0 k =
     (msg @ type_header (snd r)) @ concat (map (payload_line X) (take k (payloads (snd r))))"
  by (simp add: rendered_upto_def)

lemma rendered_upto_next:
  "rendered_upto X msg (r # rs) (Suc i) k = rendered_upto X (msg @ full_type X r) rs i k"
  by (simp add: rendered_upto_def)

lemma rendered_upto_take:
  "i < n \<Longrightarrow> rendered_upto X msg (take n errs) i k = rendered_upto X msg errs i k"
  by (simp add: rendered_upto_def min_def)

lemma render_payloads_all_fit:
  "(\<And>k. k < length items \<Longrightarrow>
       length (msg @ concat (map (payload_line X) (take k items))) + length (payload_line X (items ! k)) \<le> lim) \<Longrightarrow>
     render_payloads X lim mk msg items = (msg @ concat (map (payload_line X) items), False) \<and>
     length (msg @ concat (map (payload_line X) items)) \<le> max (length msg) lim"
proof (induction items arbitrary: msg)
  case Nil
  show ?case by simp
next
  case (Cons item items)
  have f0: "length msg + length (payload_line X item) \<le> lim"
    using Cons.prems [of 0] by simp
  have fk: "length ((msg @ payload_line X item) @ concat (map (payload_line X) (take k items)))
              + length (payload_line X (items ! k)) \<le> lim" if "k < length items" for k
    using Cons.prems [of "Suc k"] that by simp
  have ih: "render_payloads X lim mk (msg @ payload_line X item) items =
              ((msg @ payload_line X item) @ concat (map (payload_line X) items), False) \<and>
            length ((msg @ payload_line X item) @ concat (map (payload_line X) items))
              \<le> max (length (msg @ payload_line X item)) lim"
    by (rule Cons.IH) (rule fk)
  have r: "render_payloads X lim mk msg (item # items) = render_payloads X lim mk (msg @ payload_line X item) items"
    using f0 by (simp add: Let_def)
  have b: "length ((msg @ payload_line X item) @ concat (map (payload_line X) items)) \<le> max (length msg) lim"
    using conjunct2 [OF ih] f0 unfolding length_append by linarith
  show ?case
    unfolding r using conjunct1 [OF ih] b by simp
qed

lemma render_payloads_first_misfit:
  "k < length items \<Longrightarrow>
   lim < length (msg @ concat (map (payload_line X) (take k items))) + length (payload_line X (items ! k)) \<Longrightarrow>
   (\<And>j. j < k \<Longrightarrow>
       length (msg @ concat (map (payload_line X) (take j items))) + length (payload_line X (items ! j)) \<le> lim) \<Longrightarrow>
     render_payloads X lim mk msg items = (msg @ concat (map (payload_line X) (take k items)) @ mk, True) \<and>
     length (msg @ concat (map (payload_line X) (take k items))) \<le> max (length msg) lim"
proof (induction items arbitrary: msg k)
  case Nil
  then show ?case by simp
next
  case (Cons item items)
  show ?case
  proof (cases k)
    case 0
    then show ?thesis using Cons.prems(2) by (simp add: Let_def)
  next
    case (Suc k1)
    have f0: "length msg + length (payload_line X item) \<le> lim"
      using Cons.prems(3) [of 0] Suc by simp
    have k1: "k1 < length items" using Cons.prems(1) Suc by simp
    have mis: "lim < length ((msg @ payload_line X item) @ concat (map (payload_line X) (take k1 items)))
                 + length (payload_line X (items ! k1))"
      using Cons.prems(2) Suc by simp
    have fj: "length ((msg @ payload_line X item) @ concat (map (payload_line X) (take j items)))
                + length (payload_line X (items ! j)) \<le> lim" if "j < k1" for j
      using Cons.prems(3) [of "Suc j"] that Suc by simp
    have ih: "render_payloads X lim mk (msg @ payload_line X item) items =
                ((msg @ payload_line X item) @ concat (map (payload_line X) (take k1 items)) @ mk, True) \<and>
              length ((msg @ payload_line X item) @ concat (map (payload_line X) (take k1 items)))
                \<le> max (length (msg @ payload_line X item)) lim"
      using k1 mis by (rule Cons.IH) (rule fj)
    have r: "render_payloads X lim mk msg (item # items) = render_payloads X lim mk (msg @ payload_line X item) items"
      using f0 by (simp add: Let_def)
    have b: "length ((msg @ payload_line X item) @ concat (map (payload_line X) (take k1 items)))
               \<le> max (length msg) lim"
      using conjunct2 [OF ih] f0 unfolding length_append by linarith
    show ?thesis
      unfolding r using conjunct1 [OF ih] b Suc by simp
  qed
qed

lemma render_types_all_fit:
  "(\<And>i k. i < length rs \<Longrightarrow> k < length (payloads (snd (rs ! i))) \<Longrightarrow>
       length (rendered_upto X msg rs i k) + length (payload_line X (payloads (snd (rs ! i)) ! k)) \<le> lim) \<Longrightarrow>
     render_types X lim errs msg rs = (msg @ concat (map (full_type X) rs), False) \<and>
     length (msg @ concat (map (full_type X) rs))
       \<le> max (length msg) lim + (\<Sum>e\<leftarrow>rs. length (type_header (snd e)))"
proof (induction rs arbitrary: msg)
  case Nil
  show ?case by simp
next
  case (Cons r rs)
  let ?mk = "truncation_marker (int (length errs) - indexOf errs r)"
  let ?m1 = "msg @ type_header (snd r)"
  have f0: "length (?m1 @ concat (map (payload_line X) (take k (payloads (snd r)))))
              + length (payload_line X (payloads (snd r) ! k)) \<le> lim" if "k < length (payloads (snd r))" for k
    using Cons.prems [of 0 k] that by (simp add: rendered_upto_first)
  have p: "render_payloads X lim ?mk ?m1 (payloads (snd r)) =
             (?m1 @ concat (map (payload_line X) (payloads (snd r))), False) \<and>
           length (?m1 @ concat (map (payload_line X) (payloads (snd r)))) \<le> max (length ?m1) lim"
    by (rule render_payloads_all_fit) (rule f0)
  have ft: "?m1 @ concat (map (payload_line X) (payloads (snd r))) = msg @ full_type X r"
    by (simp add: full_type_def)
  have fi: "length (rendered_upto X (msg @ full_type X r) rs i k)
              + length (payload_line X (payloads (snd (rs ! i)) ! k)) \<le> lim"
    if "i < length rs" "k < length (payloads (snd (rs ! i)))" for i k
    using Cons.prems [of "Suc i" k] that by (simp add: rendered_upto_next)
  have ih: "render_types X lim errs (msg @ full_type X r) rs =
              ((msg @ full_type X r) @ concat (map (full_type X) rs), False) \<and>
            length ((msg @ full_type X r) @ concat (map (full_type X) rs))
              \<le> max (length (msg @ full_type X r)) lim + (\<Sum>e\<leftarrow>rs. length (type_header (snd e)))"
    by (rule Cons.IH) (rule fi)
  have r: "render_types X lim errs msg (r # rs) = render_types X lim errs (msg @ full_type X r) rs"
    using conjunct1 [OF p] ft by (simp add: Let_def)
  have b1: "length (msg @ full_type X r) \<le> max (length (msg @ type_header (snd r))) lim"
    using conjunct2 [OF p] unfolding ft .
  have b: "length ((msg @ full_type X r) @ concat (map (full_type X) rs))
             \<le> max (length msg) lim + (length (type_header (snd r)) + (\<Sum>e\<leftarrow>rs. length (type_header (snd e))))"
    using conjunct2 [OF ih] b1 unfolding length_append by linarith
  show ?case
    unfolding r using conjunct1 [OF ih] b by simp
qed

lemma render_types_first_misfit:
  "i < length rs \<Longrightarrow> k < length (payloads (snd (rs ! i))) \<Longrightarrow>
   lim < length (rendered_upto X msg rs i k) + length (payload_line X (payloads (snd (rs ! i)) ! k)) \<Longrightarrow>
   (\<And>i' k'. i' < length rs \<Longrightarrow> k' < length (payloads (snd (rs ! i'))) \<Longrightarrow> i' < i \<or> i' = i \<and> k' < k \<Longrightarrow>
       length (rendered_upto X msg rs i' k') + length (payload_line X (payloads (snd (rs ! i')) ! k')) \<le> lim) \<Longrightarrow>
     render_types X lim errs msg rs =
       (rendered_upto X msg rs i k @ truncation_marker (int (length errs) - indexOf errs (rs ! i)), True) \<and>
     length (rendered_upto X msg rs i k)
       \<le> max (length msg) lim + (\<Sum>e\<leftarrow>take (Suc i) rs. length (type_header (snd e)))"
proof (induction rs arbitrary: msg i)
  case Nil
  then show ?case by simp
next
  case (Cons r rs)
  let ?mk = "truncation_marker (int (length errs) - indexOf errs r)"
  let ?m1 = "msg @ type_header (snd r)"
  show ?case
  proof (cases i)
    case 0
    have k0: "k < length (payloads (snd r))" using Cons.prems(2) 0 by simp
    have mis: "lim < length (?m1 @ concat (map (payload_line X) (take k (payloads (snd r)))))
                 + length (payload_line X (payloads (snd r) ! k))"
      using Cons.prems(3) 0 by (simp add: rendered_upto_first)
    have fj: "length (?m1 @ concat (map (payload_line X) (take j (payloads (snd r)))))
                + length (payload_line X (payloads (snd r) ! j)) \<le> lim" if "j < k" for j
      using Cons.prems(4) [of 0 j] that k0 0 by (simp add: rendered_upto_first)
    have p: "render_payloads X lim ?mk ?m1 (payloads (snd r)) =
               (?m1 @ concat (map (payload_line X) (take k (payloads (snd r)))) @ ?mk, True) \<and>
             length (?m1 @ concat (map (payload_line X) (take k (payloads (snd r))))) \<le> max (length ?m1) lim"
      using k0 mis by (rule render_payloads_first_misfit) (rule fj)
    have b: "length (?m1 @ concat (map (payload_line X) (take k (payloads (snd r)))))
               \<le> max (length msg) lim + length (type_header (snd r))"
      using conjunct2 [OF p] unfolding length_append by linarith
    show ?thesis
      using conjunct1 [OF p] b 0 by (simp add: Let_def rendered_upto_first)
  next
    case (Suc i1)
    have f0: "length (?m1 @ concat (map (payload_line X) (take j (payloads (snd r)))))
                + length (payload_line X (payloads (snd r) ! j)) \<le> lim" if "j < length (payloads (snd r))" for j
      using Cons.prems(4) [of 0 j] that Suc by (simp add: rendered_upto_first)
    have p: "render_payloads X lim ?mk ?m1 (payloads (snd r)) =
               (?m1 @ concat (map (payload_line X) (payloads (snd r))), False) \<and>
             length (?m1 @ concat (map (payload_line X) (payloads (snd r)))) \<le> max (length ?m1) lim"
      by (rule render_payloads_all_fit) (rule f0)
    have ft: "?m1 @ concat (map (payload_line X) (payloads (snd r))) = msg @ full_type X r"
      by (simp add: full_type_def)
    have i1: "i1 < length rs" using Cons.prems(1) Suc by simp
    have k1: "k < length (payloads (snd (rs ! i1)))" using Cons.prems(2) Suc by simp
    have mis: "lim < length (rendered_upto X (msg @ full_type X r) rs i1 k)
                 + length (payload_line X (payloads (snd (rs ! i1)) ! k))"
      using Cons.prems(3) Suc by (simp add: rendered_upto_next)
    have fi: "length (rendered_upto X (msg @ full_type X r) rs i' k')
                + length (payload_line X (payloads (snd (rs ! i')) ! k')) \<le> lim"
      if "i' < length rs" "k' < length (payloads (snd (rs ! i')))" "i' < i1 \<or> i' = i1 \<and> k' < k" for i' k'
      using Cons.prems(4) [of "Suc i'" k'] that Suc by (simp add: rendered_upto_next)
    have ih: "render_types X lim errs (msg @ full_type X r) rs =
                (rendered_upto X (msg @ full_type X r) rs i1 k
                   @ truncation_marker (int (length errs) - indexOf errs (rs ! i1)), True) \<and>
              length (rendered_upto X (msg @ full_type X r) rs i1 k)
                \<le> max (length (msg @ full_type X r)) lim + (\<Sum>e\<leftarrow>take (Suc i1) rs. length (type_header (snd e)))"
      using i1 k1 mis by (rule Cons.IH) (rule fi)
    have r: "render_types X lim errs msg (r # rs) = render_types X lim errs (msg @ full_type X r) rs"
      using conjunct1 [OF p] ft by (simp add: Let_def)
    have b1: "length (msg @ full_type X r) \<le> max (length (msg @ type_header (snd r))) lim"
      using conjunct2 [OF p] unfolding ft .
    have b: "length (rendered_upto X (msg @ full_type X r) rs i1 k)
               \<le> max (length msg) lim
                    + (length (type_header (snd r)) + (\<Sum>e\<leftarrow>take (Suc i1) rs. length (type_header (snd e))))"
      using conjunct2 [OF ih] b1 unfolding length_append by linarith
    show ?thesis
      unfolding r using conjunct1 [OF ih] b Suc by (simp add: rendered_upto_next)
  qed
qed

text \<open>The report itself: with every line fitting, and with a first line that does not.\<close>

lemma batched_report_all_fit:
  "(\<And>i k. i < length errs \<Longrightarrow> i < 10 \<Longrightarrow> k < length (payloads (snd (errs ! i))) \<Longrightarrow>
       length (rendered_upto X (report_header src totalErrors (length errs) (formatTimeRange X earliest latest)) errs i k)
         + length (payload_line X (payloads (snd (errs ! i)) ! k)) \<le> maxMessageLength_of c) \<Longrightarrow>
     batched_report X c src errs totalErrors earliest latest =
       report_header src totalErrors (length errs) (formatTimeRange X earliest latest)
         @ concat (map (full_type X) (take 10 errs))
         @ (if 10 < length errs then more_types_note (length errs - 10) else []) \<and>
     length (report_header src totalErrors (length errs) (formatTimeRange X earliest latest)
               @ concat (map (full_type X) (take 10 errs)))
       \<le> maxMessageLength_of c
            + length (report_header src totalErrors (length errs) (formatTimeRange X earliest latest))
            + (\<Sum>e\<leftarrow>take 10 errs. length (type_header (snd e)))"
proof -
  let ?h = "report_header src totalErrors (length errs) (formatTimeRange X earliest latest)"
  let ?L = "maxMessageLength_of c"
  assume a: "\<And>i k. i < length errs \<Longrightarrow> i < 10 \<Longrightarrow> k < length (payloads (snd (errs ! i))) \<Longrightarrow>
       length (rendered_upto X ?h errs i k) + length (payload_line X (payloads (snd (errs ! i)) ! k)) \<le> ?L"
  have f: "length (rendered_upto X ?h (take 10 errs) i k)
             + length (payload_line X (payloads (snd (take 10 errs ! i)) ! k)) \<le> ?L"
    if "i < length (take 10 errs)" "k < length (payloads (snd (take 10 errs ! i)))" for i k
    using a [of i k] that by (simp add: rendered_upto_take)
  have t: "render_types X ?L errs ?h (take 10 errs) = (?h @ concat (map (full_type X) (take 10 errs)), False) \<and>
           length (?h @ concat (map (full_type X) (take 10 errs)))
             \<le> max (length ?h) ?L + (\<Sum>e\<leftarrow>take 10 errs. length (type_header (snd e)))"
    by (rule render_types_all_fit) (rule f)
  have rep: "batched_report X c src errs totalErrors earliest latest =
      ?h @ concat (map (full_type X) (take 10 errs)) @ (if 10 < length errs then more_types_note (length errs - 10) else [])"
    using conjunct1 [OF t] by (simp add: batched_report_def Let_def)
  have len: "length (?h @ concat (map (full_type X) (take 10 errs)))
      \<le> ?L + length ?h + (\<Sum>e\<leftarrow>take 10 errs. length (type_header (snd e)))"
    using conjunct2 [OF t] by linarith
  show ?thesis
    using rep len by (rule conjI)
qed

lemma batched_report_first_misfit:
  "i < length errs \<Longrightarrow> i < 10 \<Longrightarrow> k < length (payloads (snd (errs ! i))) \<Longrightarrow>
   maxMessageLength_of c
     < length (rendered_upto X (report_header src totalErrors (length errs) (formatTimeRange X earliest latest)) errs i k)
         + length (payload_line X (payloads (snd (errs ! i)) ! k)) \<Longrightarrow>
   (\<And>i' k'. i' < length errs \<Longrightarrow> k' < length (payloads (snd (errs ! i'))) \<Longrightarrow> i' < i \<or> i' = i \<and> k' < k \<Longrightarrow>
       length (rendered_upto X (report_header src totalErrors (length errs) (formatTimeRange X earliest latest)) errs i' k')
         + length (payload_line X (payloads (snd (errs ! i')) ! k')) \<le> maxMessageLength_of c) \<Longrightarrow>
     batched_report X c src errs totalErrors earliest latest =
       rendered_upto X (report_header src totalErrors (length errs) (formatTimeRange X earliest latest)) errs i k
         @ truncation_marker (int (length errs) - indexOf errs (errs ! i)) \<and>
     length (rendered_upto X (report_header src totalErrors (length errs) (formatTimeRange X earliest latest)) errs i k)
       \<le> maxMessageLength_of c
            + length (report_header src totalErrors (length errs) (formatTimeRange X earliest latest))
            + (\<Sum>e\<leftarrow>take (Suc i) errs. length (type_header (snd e))) \<and>
     (0 < k \<longrightarrow>
        length (rendered_upto X (report_header src totalErrors (length errs) (formatTimeRange X earliest latest)) errs i k)
          \<le> maxMessageLength_of c)"
proof -
  let ?h = "report_header src totalErrors (length errs) (formatTimeRange X earliest latest)"
  let ?L = "maxMessageLength_of c"
  assume i: "i < length errs" and i10: "i < 10" and k: "k < length (payloads (snd (errs ! i)))"
    and mis: "?L < length (rendered_upto X ?h errs i k) + length (payload_line X (payloads (snd (errs ! i)) ! k))"
    and a: "\<And>i' k'. i' < length errs \<Longrightarrow> k' < length (payloads (snd (errs ! i'))) \<Longrightarrow> i' < i \<or> i' = i \<and> k' < k \<Longrightarrow>
       length (rendered_upto X ?h errs i' k') + length (payload_line X (payloads (snd (errs ! i')) ! k')) \<le> ?L"
  have i': "i < length (take 10 errs)" using i i10 by simp
  have k': "k < length (payloads (snd (take 10 errs ! i)))" using k i10 by simp
  have mis': "?L < length (rendered_upto X ?h (take 10 errs) i k)
                + length (payload_line X (payloads (snd (take 10 errs ! i)) ! k))"
    using mis i10 by (simp add: rendered_upto_take)
  have f: "length (rendered_upto X ?h (take 10 errs) i' k')
             + length (payload_line X (payloads (snd (take 10 errs ! i')) ! k')) \<le> ?L"
    if "i' < length (take 10 errs)" "k' < length (payloads (snd (take 10 errs ! i')))" "i' < i \<or> i' = i \<and> k' < k"
    for i' k'
    using a [of i' k'] that i10 by (simp add: rendered_upto_take)
  have t: "render_types X ?L errs ?h (take 10 errs) =
             (rendered_upto X ?h (take 10 errs) i k
                @ truncation_marker (int (length errs) - indexOf errs (take 10 errs ! i)), True) \<and>
           length (rendered_upto X ?h (take 10 errs) i k)
             \<le> max (length ?h) ?L + (\<Sum>e\<leftarrow>take (Suc i) (take 10 errs). length (type_header (snd e)))"
    using i' k' mis' by (rule render_types_first_misfit) (rule f)
  have tk: "take (Suc i) (take 10 errs) = take (Suc i) errs"
    using i10 by (simp add: min_def)
  have ru: "rendered_upto X ?h (take 10 errs) i k = rendered_upto X ?h errs i k"
    using i10 by (rule rendered_upto_take)
  have nt: "take 10 errs ! i = errs ! i"
    using i10 by simp
  have rep: "batched_report X c src errs totalErrors earliest latest =
      rendered_upto X ?h errs i k @ truncation_marker (int (length errs) - indexOf errs (errs ! i))"
    using conjunct1 [OF t] unfolding ru nt by (simp add: batched_report_def Let_def)
  have len: "length (rendered_upto X ?h errs i k)
       \<le> ?L + length ?h + (\<Sum>e\<leftarrow>take (Suc i) errs. length (type_header (snd e)))"
    using conjunct2 [OF t] unfolding ru tk by linarith
  have pos: "length (rendered_upto X ?h errs i k) \<le> ?L" if kpos: "0 < k"
  proof -
    have "\<exists>k1. k = Suc k1" using kpos by (rule gr0_implies_Suc)
    then obtain k1 where k1: "k = Suc k1" ..
    have k1l: "k1 < length (payloads (snd (errs ! i)))" using k k1 by simp
    have ord: "i < i \<or> i = i \<and> k1 < k" using k1 by simp
    have f1: "length (rendered_upto X ?h errs i k1) + length (payload_line X (payloads (snd (errs ! i)) ! k1)) \<le> ?L"
      using i k1l ord by (rule a)
    have e1: "rendered_upto X ?h errs i (Suc k1) =
        rendered_upto X ?h errs i k1 @ payload_line X (payloads (snd (errs ! i)) ! k1)"
      using k1l by (rule rendered_upto_Suc)
    show ?thesis
      unfolding k1 e1 length_append by (rule f1)
  qed
  have pos': "0 < k \<longrightarrow> length (rendered_upto X ?h errs i k) \<le> ?L"
    using pos by (rule impI)
  show ?thesis
    by (intro conjI) (rule rep, rule len, rule pos')
qed


section \<open>Grouping and dispatch\<close>


lemma discovery_order_set [simp]: "set (discovery_order xs) = set xs"
  by (simp add: discovery_order_def)









lemma errors_group_of [simp]: "errors (group_of es) = es"
  by (simp add: group_of_def)










section \<open>The start of a report and the test values\<close>

lemma render_types_starts:
  "render_types X lim errs msg (r # rs) = (out, tr) \<Longrightarrow> \<exists>rest. out = msg @ type_header (snd r) @ rest"
proof -
  assume a: "render_types X lim errs msg (r # rs) = (out, tr)"
  let ?mk = "truncation_marker (int (length errs) - indexOf errs r)"
  let ?m1 = "msg @ type_header (snd r)"
  obtain out1 tr1 where p: "render_payloads X lim ?mk ?m1 (payloads (snd r)) = (out1, tr1)"
    by (cases "render_payloads X lim ?mk ?m1 (payloads (snd r))")
  obtain body1 where b1: "out1 = ?m1 @ body1 @ (if tr1 then ?mk else [])"
    using render_payloads_shape [OF p] by blast
  show ?thesis
  proof (cases tr1)
    case True
    then have "out = out1" using a p by (simp add: Let_def)
    then show ?thesis using b1 by simp
  next
    case False
    then have "render_types X lim errs out1 rs = (out, tr)" using a p by (simp add: Let_def)
    then obtain body2 n where "out = out1 @ body2 @ (if tr then truncation_marker n else [])"
      using render_types_shape by blast
    then show ?thesis using b1 by simp
  qed
qed

lemma batched_report_starts:
  "\<exists>rest. batched_report X c src (r # rs) totalErrors earliest latest =
      report_header src totalErrors (length (r # rs)) (formatTimeRange X earliest latest) @ type_header (snd r) @ rest"
proof -
  let ?h = "report_header src totalErrors (length (r # rs)) (formatTimeRange X earliest latest)"
  obtain out tr where o: "render_types X (maxMessageLength_of c) (r # rs) ?h (r # take 9 rs) = (out, tr)"
    by (cases "render_types X (maxMessageLength_of c) (r # rs) ?h (r # take 9 rs)")
  obtain rest where r: "out = ?h @ type_header (snd r) @ rest"
    using render_types_starts [OF o] by blast
  have t: "take 10 (r # rs) = r # take 9 rs" by (simp add: take_Cons')
  have "batched_report X c src (r # rs) totalErrors earliest latest =
      (if length (r # rs) > 10 \<and> \<not> tr then out @ more_types_note (length (r # rs) - 10) else out)"
    using o unfolding batched_report_def Let_def t by simp
  then show ?thesis using r by (cases "length (r # rs) > 10 \<and> \<not> tr") auto
qed

lemma sublist_take:
  "length a + length s \<le> n \<Longrightarrow> sublist s (take n (a @ s @ b))"
proof -
  assume "length a + length s \<le> n"
  then have e: "take n (a @ s @ b) = a @ s @ take (n - length a - length s) b" by simp
  show ?thesis unfolding sublist_def e by blast
qed

lemma mockConf_fields:
  "enable mockConf" "worker mockConf = Some ''rest:ext:slack''" "max_length mockConf = Some 1024"
  "channel mockConf = ''default-channel''" "env mockConf = Some ''test''"
  "errorBatching mockConf = Some \<lparr>interval = Some 5000, maxSize = Some 10, maxMessageLength = Some 4000\<rparr>"
  by (simp_all add: mockConf_def)

lemma mock_node_fields:
  "grc_req mock_node rq = Resolved (JBool True)" "formatTime mock_node t = ''10:00:00''"
  "sha1_hex mock_node s = ''sha1-'' @ s"
  by (simp_all add: mock_node_def)

lemma string_of_nat_digit: "n < 10 \<Longrightarrow> string_of_nat n = [digit_char n]"
  by (simp add: string_of_nat.simps)


section \<open>The length cap of message\<close>

text \<open>
  C9. When dispatch is enabled, \<open>message\<close> hands exactly one request to the transport, and
  its text, environment prefix included, is at most \<open>max_length\<close> long, where an unset
  \<open>max_length\<close> (and 0, which \<open>||\<close> reads as unset) stands for 1024.
\<close>

theorem message_text_within_max_length:
  "enable (conf st) \<Longrightarrow>
     \<exists>rq. requests (snd (message X st ch msg)) = requests st @ [rq] \<and>
          length (req_text rq) \<le> or_nat (max_length (conf st)) 1024"
proof -
  assume en: "enable (conf st)"
  have cut: "length (if length r > m then take m r else r) \<le> m" for r :: string and m
    by simp
  show ?thesis
    using en cut by (simp add: message_def Let_def del: length_append take_append)
qed

theorem message_text_within_max_length_witness:
  "enable (conf (new_GrcSlack (mockConf\<lparr>max_length := Some 12\<rparr>) False :: string grc_slack)) \<and>
   map req_text (requests (snd (message mock_node (new_GrcSlack (mockConf\<lparr>max_length := Some 12\<rparr>) False) None ''a message''))) = [''Env: test, a''] \<and>
   length ''Env: test, a'' \<le> or_nat (max_length (mockConf\<lparr>max_length := Some 12\<rparr>)) 1024"
  using message_text_within_max_length [of "new_GrcSlack (mockConf\<lparr>max_length := Some 12\<rparr>) False :: string grc_slack" mock_node None "''a message''"]
  by (simp add: new_GrcSlack_def mockConf_def message_def mock_node_def or_nat_def or_string_def)


section \<open>The store after a flush\<close>

text \<open>
  C6. A run of \<open>_processBatchedErrors\<close> on a store that is not empty resolves and leaves the
  store cleared, its size 0, whatever the transport did with the dispatches: whether all of
  them succeeded or one was rejected and ended the cycle.
\<close>

theorem processBatchedErrors_clears_store:
  "errorBatch st = Some batch \<Longrightarrow> batch \<noteq> [] \<Longrightarrow>
     fst (processBatchedErrors X st) = Resolved JUndefined \<and>
     (\<exists>b. errorBatch (snd (processBatchedErrors X st)) = Some b \<and> lru_length b = 0)"
proof -
  assume a: "errorBatch st = Some batch" "batch \<noteq> []"
  obtain exc st1 where d: "dispatch_groups X st (map snd (group_entries [] batch)) = (exc, st1)"
    by (cases "dispatch_groups X st (map snd (group_entries [] batch))")
  have e: "errorBatch st1 = Some batch"
    using dispatch_errorBatch [of X st "map snd (group_entries [] batch)"] d a by simp
  show ?thesis
    using a d e by (cases exc) (simp_all add: processBatchedErrors_def lru_length_def lru_clear_def)
qed

theorem processBatchedErrors_clears_store_witness:
  "errorBatch one_entry_instance \<noteq> None \<and> the (errorBatch one_entry_instance) \<noteq> [] \<and>
   fst (processBatchedErrors rejecting_node one_entry_instance) = Resolved JUndefined \<and>
   (\<exists>b. errorBatch (snd (processBatchedErrors rejecting_node one_entry_instance)) = Some b \<and> lru_length b = 0) \<and>
   console (snd (processBatchedErrors rejecting_node one_entry_instance)) = [''Failed to process batched errors'']"
proof -
  have c: "console (snd (processBatchedErrors rejecting_node one_entry_instance)) = [''Failed to process batched errors'']"
    by code_simp
  show ?thesis
    using c processBatchedErrors_clears_store [of one_entry_instance "the (errorBatch one_entry_instance)" rejecting_node]
    by (simp add: one_entry_instance_def)
qed


section \<open>logErrorEnqueue and rejection\<close>

text \<open>
  C1, as the code has it. \<open>logErrorEnqueue\<close> can reject, and only in one way: through the
  direct log. If its promise rejects with \<open>e\<close>, then \<open>logError\<close> called with the original
  channel, error, source, payload and extras fails with \<open>e\<close> (it throws, or the promise it
  returns rejects), the requests made are those of that call and the store is untouched.
  Without a store the call is the direct log. With a store, an exception thrown in the
  \<open>try\<close> block (fingerprinting, store access, reading \<open>err.message\<close>) is caught: the store
  stays as it was, the direct log is attempted with the same arguments, and the promise
  rejects exactly when that attempt fails. The direct log fails in two ways only: it throws
  while it builds its text (an error object outside \<open>Object\<close> that cannot be converted to a
  string), and then nothing is sent; or its one request is sent and the transport rejects it.
\<close>

theorem logErrorEnqueue_rejects_only_with_direct_log:
  "(fst (logErrorEnqueue X st ch err src p extra now) = Rejected e \<longrightarrow>
      settle (fst (logError X st ch err (ArgStr src # ArgVal p # map ArgVal extra))) = Rejected e \<and>
      requests (snd (logErrorEnqueue X st ch err src p extra now)) =
        requests (snd (logError X st ch err (ArgStr src # ArgVal p # map ArgVal extra))) \<and>
      errorBatch (snd (logErrorEnqueue X st ch err src p extra now)) = errorBatch st) \<and>
   (errorBatch st = Some batch \<and>
    enqueue_try X batch (or_string ch (channel (conf st))) err src p extra now = Inl ex \<longrightarrow>
      requests (snd (logErrorEnqueue X st ch err src p extra now)) =
        requests (snd (logError X st ch err (ArgStr src # ArgVal p # map ArgVal extra))) \<and>
      errorBatch (snd (logErrorEnqueue X st ch err src p extra now)) = Some batch \<and>
      (case settle (fst (logError X st ch err (ArgStr src # ArgVal p # map ArgVal extra))) of
         Rejected e1 \<Rightarrow> fst (logErrorEnqueue X st ch err src p extra now) = Rejected e1
       | Resolved v \<Rightarrow> fst (logErrorEnqueue X st ch err src p extra now) = Resolved JUndefined)) \<and>
   (settle (fst (logError X st ch err (ArgStr src # ArgVal p # map ArgVal extra))) = Rejected e \<longrightarrow>
      (logError_text X err (ArgStr src # ArgVal p # map ArgVal extra) = Inl e \<and>
       requests (snd (logError X st ch err (ArgStr src # ArgVal p # map ArgVal extra))) = requests st) \<or>
      (\<exists>t. logError_text X err (ArgStr src # ArgVal p # map ArgVal extra) = Inr t \<and> enable (conf st) \<and>
           grc_req X (message_request (conf st) ch t) = Rejected e \<and>
           requests (snd (logError X st ch err (ArgStr src # ArgVal p # map ArgVal extra))) =
             requests st @ [message_request (conf st) ch t]))"
proof -
  let ?args = "ArgStr src # ArgVal p # map ArgVal extra"
  let ?l1 = "console st @ [''Error batching not initialized, falling back to direct log'']"
  let ?l2 = "console st @ [''Error batching failed, falling back to direct log'']"
  let ?ch1 = "or_string ch (channel (conf st))"
  have dc: "logError X (st\<lparr>console := ?l2\<rparr>) (Some ?ch1) err ?args = logError X (st\<lparr>console := ?l2\<rparr>) ch err ?args"
    using logError_default_channel [where X=X and st="st\<lparr>console := ?l2\<rparr>" and ch=ch and err=err and extra="?args"] by simp
  note c1 = logError_console_irrelevant [where X=X and st=st and c="?l1" and ch=ch and err=err and extra="?args"]
  note c2 = logError_console_irrelevant [where X=X and st=st and c="?l2" and ch=ch and err=err and extra="?args"]
  note b2 = logError_errorBatch [where X=X and st="st\<lparr>console := ?l2\<rparr>" and ch=ch and err=err and extra="?args"]
  note b1 = logError_errorBatch [where X=X and st="st\<lparr>console := ?l1\<rparr>" and ch=ch and err=err and extra="?args"]
  have third: "settle (fst (logError X st ch err ?args)) = Rejected e \<longrightarrow>
      (logError_text X err ?args = Inl e \<and> requests (snd (logError X st ch err ?args)) = requests st) \<or>
      (\<exists>t. logError_text X err ?args = Inr t \<and> enable (conf st) \<and>
           grc_req X (message_request (conf st) ch t) = Rejected e \<and>
           requests (snd (logError X st ch err ?args)) = requests st @ [message_request (conf st) ch t])"
    using logError_failure_cases [where X=X and st=st and ch=ch and err=err and extra="?args" and e=e]
    by blast
  have first_two: "(fst (logErrorEnqueue X st ch err src p extra now) = Rejected e \<longrightarrow>
      settle (fst (logError X st ch err ?args)) = Rejected e \<and>
      requests (snd (logErrorEnqueue X st ch err src p extra now)) = requests (snd (logError X st ch err ?args)) \<and>
      errorBatch (snd (logErrorEnqueue X st ch err src p extra now)) = errorBatch st) \<and>
   (errorBatch st = Some batch \<and> enqueue_try X batch ?ch1 err src p extra now = Inl ex \<longrightarrow>
      requests (snd (logErrorEnqueue X st ch err src p extra now)) = requests (snd (logError X st ch err ?args)) \<and>
      errorBatch (snd (logErrorEnqueue X st ch err src p extra now)) = Some batch \<and>
      (case settle (fst (logError X st ch err ?args)) of
         Rejected e1 \<Rightarrow> fst (logErrorEnqueue X st ch err src p extra now) = Rejected e1
       | Resolved v \<Rightarrow> fst (logErrorEnqueue X st ch err src p extra now) = Resolved JUndefined))"
  proof (cases "errorBatch st")
    case None
    obtain out s1 where l: "logError X (st\<lparr>console := ?l1\<rparr>) ch err ?args = (out, s1)"
      by (cases "logError X (st\<lparr>console := ?l1\<rparr>) ch err ?args")
    have R: "logErrorEnqueue X st ch err src p extra now = (settle out, s1)"
      using None l by (simp add: logErrorEnqueue_def)
    have f1: "fst (logError X st ch err ?args) = out"
      using c1 l by simp
    have f2: "requests s1 = requests (snd (logError X st ch err ?args))"
      using c1 l by simp
    have f3: "errorBatch s1 = errorBatch st"
      using b1 l by simp
    show ?thesis unfolding R using f1 f2 f3 None by simp
  next
    case (Some b)
    show ?thesis
    proof (cases "enqueue_try X b ?ch1 err src p extra now")
      case (Inr b1)
      have R: "logErrorEnqueue X st ch err src p extra now = (Resolved JUndefined, st\<lparr>errorBatch := Some b1\<rparr>)"
        using Some Inr by (simp add: logErrorEnqueue_def)
      show ?thesis unfolding R using Some Inr by auto
    next
      case (Inl e0)
      obtain out s1 where l: "logError X (st\<lparr>console := ?l2\<rparr>) ch err ?args = (out, s1)"
        by (cases "logError X (st\<lparr>console := ?l2\<rparr>) ch err ?args")
      have R: "logErrorEnqueue X st ch err src p extra now =
                 (case settle out of Rejected e1 \<Rightarrow> (Rejected e1, s1) | Resolved v \<Rightarrow> (Resolved JUndefined, s1))"
        using Some Inl l dc by (simp add: logErrorEnqueue_def)
      have f1: "fst (logError X st ch err ?args) = out"
        using c2 l by simp
      have f2: "requests s1 = requests (snd (logError X st ch err ?args))"
        using c2 l by simp
      have f3: "errorBatch s1 = Some b"
        using b2 l Some by simp
      show ?thesis unfolding R using f1 f2 f3 Some Inl by (cases "settle out") auto
    qed
  qed
  show ?thesis
    using first_two third by blast
qed

theorem logErrorEnqueue_rejects_only_with_direct_log_witness:
  "fst (logErrorEnqueue rejecting_node (new_GrcSlack mockConf True) None (ErrPrim JNull) ''src'' ''{}'' [] 0)
     = Rejected (Failure ''ERR_TIMEOUT'') \<and>
   errorBatch (new_GrcSlack mockConf True :: string grc_slack) = Some [] \<and>
   enqueue_try rejecting_node [] (or_string None (channel (conf (new_GrcSlack mockConf True :: string grc_slack))))
       (ErrPrim JNull) ''src'' ''{}'' [] 0
     = Inl (TypeError ''Cannot read properties of null or undefined (reading message)'') \<and>
   settle (fst (logError rejecting_node (new_GrcSlack mockConf True) None (ErrPrim JNull) [ArgStr ''src'', ArgVal ''{}'']))
     = Rejected (Failure ''ERR_TIMEOUT'') \<and>
   map req_channel (requests (snd (logErrorEnqueue rejecting_node (new_GrcSlack mockConf True) None (ErrPrim JNull) ''src'' ''{}'' [] 0)))
     = [''default-channel''] \<and>
   errorBatch (snd (logErrorEnqueue rejecting_node (new_GrcSlack mockConf True) None (ErrPrim JNull) ''src'' ''{}'' [] 0))
     = Some [] \<and>
   fst (logErrorEnqueue mock_node (new_GrcSlack mockConf True) (Some ''ch'') bare_object ''src'' ''{}'' [] 0)
     = Rejected (TypeError ''Cannot convert object to primitive value'') \<and>
   enqueue_try mock_node [] (or_string (Some ''ch'') (channel (conf (new_GrcSlack mockConf True :: string grc_slack))))
       bare_object ''src'' ''{}'' [] 0
     = Inl (TypeError ''err.toString is not a function'') \<and>
   logError_text mock_node bare_object [ArgStr ''src'', ArgVal ''{}'']
     = Inl (TypeError ''Cannot convert object to primitive value'') \<and>
   requests (snd (logErrorEnqueue mock_node (new_GrcSlack mockConf True) (Some ''ch'') bare_object ''src'' ''{}'' [] 0))
     = []"
proof -
  have a: "fst (logErrorEnqueue rejecting_node (new_GrcSlack mockConf True) None (ErrPrim JNull) ''src'' ''{}'' [] 0)
       = Rejected (Failure ''ERR_TIMEOUT'')"
      "errorBatch (new_GrcSlack mockConf True :: string grc_slack) = Some []"
      "enqueue_try rejecting_node [] (or_string None (channel (conf (new_GrcSlack mockConf True :: string grc_slack))))
         (ErrPrim JNull) ''src'' ''{}'' [] 0
       = Inl (TypeError ''Cannot read properties of null or undefined (reading message)'')"
      "map req_channel (requests (snd (logError rejecting_node (new_GrcSlack mockConf True) None (ErrPrim JNull)
         [ArgStr ''src'', ArgVal ''{}'']))) = [''default-channel'']"
    by code_simp+
  have b: "fst (logErrorEnqueue mock_node (new_GrcSlack mockConf True) (Some ''ch'') bare_object ''src'' ''{}'' [] 0)
       = Rejected (TypeError ''Cannot convert object to primitive value'')"
      "enqueue_try mock_node [] (or_string (Some ''ch'') (channel (conf (new_GrcSlack mockConf True :: string grc_slack))))
         bare_object ''src'' ''{}'' [] 0
       = Inl (TypeError ''err.toString is not a function'')"
      "logError_text mock_node bare_object [ArgStr ''src'', ArgVal ''{}'']
       = Inl (TypeError ''Cannot convert object to primitive value'')"
      "requests (snd (logError mock_node (new_GrcSlack mockConf True) (Some ''ch'') bare_object
         [ArgStr ''src'', ArgVal ''{}''])) = []"
    by code_simp+
  note t1 = logErrorEnqueue_rejects_only_with_direct_log
    [where X = rejecting_node and st = "new_GrcSlack mockConf True" and ch = None and err = "ErrPrim JNull"
       and src = "''src''" and p = "''{}''" and extra = "[]" and now = 0 and e = "Failure ''ERR_TIMEOUT''"
       and batch = "[]" and ex = "TypeError ''Cannot read properties of null or undefined (reading message)''"]
  note t2 = logErrorEnqueue_rejects_only_with_direct_log
    [where X = mock_node and st = "new_GrcSlack mockConf True" and ch = "Some ''ch''" and err = bare_object
       and src = "''src''" and p = "''{}''" and extra = "[]" and now = 0
       and e = "TypeError ''Cannot convert object to primitive value''"
       and batch = "[]" and ex = "TypeError ''err.toString is not a function''"]
  show ?thesis
    using a b t1 t2 by simp
qed

text \<open>
  The claim as stated fails: without batching the promise returned is the direct log's own,
  and a transport that rejects (a timeout) makes it reject.
\<close>

theorem logErrorEnqueue_counterexample:
  "fst (logErrorEnqueue rejecting_node (new_GrcSlack (mockConf\<lparr>errorBatching := None\<rparr>) False)
         (Some ''ch'') (new_Error ''no batch'') ''src'' ''{a:1}'' [''e1''] 0)
   = Rejected (Failure ''ERR_TIMEOUT'')"
  by code_simp

section \<open>logErrorEnqueue and the size of the store\<close>

text \<open>
  C2, as the code has it. \<open>logErrorEnqueue\<close> starts no flush, whatever
  \<open>errorBatching.maxSize\<close> is: index.js never reads that option. After an enqueue with
  batching active the store still holds every key it held, its size is the old one or one
  more, and an enqueue that did not fall back to the direct log has made no request.
\<close>

theorem logErrorEnqueue_never_flushes:
  "errorBatch st = Some batch \<Longrightarrow>
     (\<exists>b. errorBatch (snd (logErrorEnqueue X st ch err src p extra now)) = Some b \<and>
          fst ` set batch \<subseteq> fst ` set b \<and>
          lru_length batch \<le> lru_length b \<and> lru_length b \<le> Suc (lru_length batch)) \<and>
     (\<forall>b1. enqueue_try X batch (or_string ch (channel (conf st))) err src p extra now = Inr b1 \<longrightarrow>
          requests (snd (logErrorEnqueue X st ch err src p extra now)) = requests st)"
proof -
  assume a: "errorBatch st = Some batch"
  let ?ch1 = "or_string ch (channel (conf st))"
  let ?args = "ArgStr src # ArgVal p # map ArgVal extra"
  let ?l2 = "console st @ [''Error batching failed, falling back to direct log'']"
  show ?thesis
  proof (cases "enqueue_try X batch ?ch1 err src p extra now")
    case (Inr b1)
    have R: "logErrorEnqueue X st ch err src p extra now = (Resolved JUndefined, st\<lparr>errorBatch := Some b1\<rparr>)"
      using a Inr by (simp add: logErrorEnqueue_def)
    obtain k e where b1: "b1 = lru_set batch k e"
      using enqueue_try_keeps [OF Inr] by blast
    show ?thesis unfolding R using Inr b1
      by (auto simp: lru_length_def lru_set_length lru_set_keys)
  next
    case (Inl e0)
    obtain out s1 where l: "logError X (st\<lparr>console := ?l2\<rparr>) (Some ?ch1) err ?args = (out, s1)"
      by (cases "logError X (st\<lparr>console := ?l2\<rparr>) (Some ?ch1) err ?args")
    have R: "snd (logErrorEnqueue X st ch err src p extra now) = s1"
      using a Inl l by (cases "settle out") (simp_all add: logErrorEnqueue_def)
    have f3: "errorBatch s1 = Some batch"
      using logError_errorBatch [where X=X and st="st\<lparr>console := ?l2\<rparr>" and ch="Some ?ch1" and err=err and extra="?args"] l a
      by simp
    show ?thesis unfolding R using f3 Inl by (simp add: lru_length_def)
  qed
qed

theorem logErrorEnqueue_never_flushes_witness:
  "errorBatch (new_GrcSlack maxSize1_conf True :: string grc_slack) = Some [] \<and>
   enqueue_try mock_node [] (or_string (Some ''test'') (channel (conf (new_GrcSlack maxSize1_conf True :: string grc_slack))))
       (new_Error ''Error 1'') ''func1'' ''{}'' [] 0
     = Inr [(''test:func1:sha1-Error 1'',
            \<lparr>errorMessage = JStr ''Error 1'', sourceName = ''func1'', reqChannel = ''test'',
             payloads = [\<lparr>payload = ''{}'', extras = []\<rparr>], count = 1, firstSeen = 0, lastSeen = 0\<rparr>)] \<and>
   requests (snd (logErrorEnqueue mock_node (new_GrcSlack maxSize1_conf True)
       (Some ''test'') (new_Error ''Error 1'') ''func1'' ''{}'' [] 0)) = [] \<and>
   (\<exists>b. errorBatch (snd (logErrorEnqueue mock_node (new_GrcSlack maxSize1_conf True)
       (Some ''test'') (new_Error ''Error 1'') ''func1'' ''{}'' [] 0)) = Some b \<and> lru_length b \<le> 1)"
proof -
  have h: "errorBatch (new_GrcSlack maxSize1_conf True :: string grc_slack) = Some []"
    by (simp add: new_GrcSlack_def maxSize1_conf_def)
  have t: "enqueue_try mock_node [] (or_string (Some ''test'') (channel (conf (new_GrcSlack maxSize1_conf True :: string grc_slack))))
       (new_Error ''Error 1'') ''func1'' ''{}'' [] 0
     = Inr [(''test:func1:sha1-Error 1'',
            \<lparr>errorMessage = JStr ''Error 1'', sourceName = ''func1'', reqChannel = ''test'',
             payloads = [\<lparr>payload = ''{}'', extras = []\<rparr>], count = 1, firstSeen = 0, lastSeen = 0\<rparr>)]"
    by code_simp
  show ?thesis
    using h t logErrorEnqueue_never_flushes [OF h, where X = mock_node and ch = "Some ''test''"
          and err = "new_Error ''Error 1''" and src = "''func1''" and p = "''{}''" and extra = "[]" and now = 0]
    by (auto simp: lru_length_def new_GrcSlack_def)
qed

text \<open>
  The claim as stated fails: with \<open>maxSize\<close> 1, the first enqueue brings the store to size 1
  and nothing is dispatched; the entry stays until a flush is run, which then sends one
  report.
\<close>

theorem maxSize_counterexample:
  "maxSize (the (errorBatching maxSize1_conf)) = Some 1 \<and>
   map_option lru_length (errorBatch (snd (logErrorEnqueue mock_node
       (new_GrcSlack maxSize1_conf True)
       (Some ''test'') (new_Error ''Error 1'') ''func1'' ''{}'' [] 0))) = Some 1 \<and>
   requests (snd (logErrorEnqueue mock_node
       (new_GrcSlack maxSize1_conf True)
       (Some ''test'') (new_Error ''Error 1'') ''func1'' ''{}'' [] 0)) = [] \<and>
   length (requests (snd (processBatchedErrors mock_node (snd (logErrorEnqueue mock_node
       (new_GrcSlack maxSize1_conf True)
       (Some ''test'') (new_Error ''Error 1'') ''func1'' ''{}'' [] 0))))) = 1"
  by code_simp


section \<open>The fingerprint\<close>

text \<open>
  C8, as the code has it. \<open>_createErrorKey\<close> reads nothing but its arguments. The text it
  hashes is \<open>err.message\<close> when that is truthy, else the result of \<open>err.toString()\<close> when
  that is truthy, else \<open>'Unknown error'\<close> (so for null and undefined). When that text is a
  string, the key is channel, source (\<open>'unknown'\<close> when the source is not given) and the
  digest of the text, joined by colons. It is not total: it throws when the text chosen is
  not a string, and when \<open>message\<close> is falsy and \<open>toString\<close> is missing or throws; the caller
  \<open>logErrorEnqueue\<close> catches that.
\<close>

theorem createErrorKey_on_string_text:
  "(opt_message err = JStr s \<and> s \<noteq> [] \<longrightarrow>
      createErrorKey X ch err src =
        Inr (createErrorGroupKey ch (case src of None \<Rightarrow> ''unknown'' | Some n \<Rightarrow> n) @ '':'' @ sha1_hex X s)) \<and>
   (\<not> truthy (opt_message err) \<and> opt_toString err = Inr (JStr t) \<and> t \<noteq> [] \<longrightarrow>
      createErrorKey X ch err src =
        Inr (createErrorGroupKey ch (case src of None \<Rightarrow> ''unknown'' | Some n \<Rightarrow> n) @ '':'' @ sha1_hex X t)) \<and>
   (\<not> truthy (opt_message err) \<and> opt_toString err = Inr v \<and> \<not> truthy v \<longrightarrow>
      createErrorKey X ch err src =
        Inr (createErrorGroupKey ch (case src of None \<Rightarrow> ''unknown'' | Some n \<Rightarrow> n) @ '':'' @ sha1_hex X ''Unknown error'')) \<and>
   ((\<exists>e. createErrorKey X ch err src = Inl e) \<longleftrightarrow>
      (truthy (opt_message err) \<and> (\<forall>s. opt_message err \<noteq> JStr s)) \<or>
      (\<not> truthy (opt_message err) \<and>
         ((\<exists>e. opt_toString err = Inl e) \<or>
          (\<exists>w. opt_toString err = Inr w \<and> truthy w \<and> (\<forall>s. w \<noteq> JStr s)))))"
proof (cases "opt_toString err")
  case (Inl e)
  then show ?thesis
    by (cases "opt_message err") (auto simp: createErrorKey_def errorMsg_of_def sha1_of_def Let_def)
next
  case (Inr w)
  then show ?thesis
    by (cases "opt_message err"; cases w) (auto simp: createErrorKey_def errorMsg_of_def sha1_of_def Let_def)
qed

theorem createErrorKey_on_string_text_witness:
  "createErrorKey mock_node ''channel'' (new_Error ''Test error'') (Some ''function1'')
     = Inr ''channel:function1:sha1-Test error'' \<and>
   createErrorKey mock_node ''channel'' (new_Error '''') (Some ''function1'')
     = Inr ''channel:function1:sha1-Error'' \<and>
   createErrorKey mock_node ''channel'' (ErrPrim JNull) None
     = Inr ''channel:unknown:sha1-Unknown error'' \<and>
   (\<exists>e. createErrorKey mock_node ''channel''
           (ErrObject \<lparr>err_message = JStr '''', err_toString = NotCallable,
                       err_instanceofObject = True, err_instanceofError = False, err_inspect = ''{}''\<rparr>) (Some ''function1'') = Inl e)"
  using createErrorKey_on_string_text [where err = "new_Error ''Test error''" and s = "''Test error''"
          and X = mock_node and ch = "''channel''" and src = "Some ''function1''"]
        createErrorKey_on_string_text [where err = "new_Error ''''" and t = "''Error''"
          and X = mock_node and ch = "''channel''" and src = "Some ''function1''"]
        createErrorKey_on_string_text [where err = "ErrPrim JNull" and v = JUndefined
          and X = mock_node and ch = "''channel''" and src = None]
        createErrorKey_on_string_text [where err = "ErrObject \<lparr>err_message = JStr '''', err_toString = NotCallable,
                       err_instanceofObject = True, err_instanceofError = False, err_inspect = ''{}''\<rparr>"
          and X = mock_node and ch = "''channel''" and src = "Some ''function1''"]
  by (simp add: new_Error_def mock_node_def createErrorGroupKey_def Let_def)

text \<open>
  The claim as stated fails: an error whose \<open>message\<close> is the number 42 makes the hash's
  \<open>update\<close> throw a TypeError.
\<close>

theorem createErrorKey_counterexample:
  "createErrorKey mock_node ''channel''
     (ErrObject \<lparr>err_message = JNum 42, err_toString = ToStringReturns (JStr ''Error: 42''),
                 err_instanceofObject = True, err_instanceofError = True, err_inspect = ''Error: 42''\<rparr>) (Some ''function1'')
   = Inl (TypeError ''The data argument must be of type string or an instance of Buffer, TypedArray, or DataView'')"
  by (simp add: createErrorKey_def errorMsg_of_def sha1_of_def)


section \<open>The payload window\<close>

text \<open>
  C7. Take a store that has no entry for the fingerprint of an error, and enqueue that error
  \<open>N \<ge> 1\<close> times under one channel and source (the error being one whose \<open>message\<close> can be
  read, so that each enqueue contributes). Then the entry's \<open>payloads\<close> holds the last
  \<open>min N 3\<close> (payload, extras) pairs in the order they were enqueued, the older ones dropped,
  and its \<open>count\<close> is \<open>N\<close>.
\<close>

theorem payload_window_last_three:
  "errorBatch st = Some batch \<Longrightarrow>
   createErrorKey X (or_string ch (channel (conf st))) err (Some src) = Inr k \<Longrightarrow>
   prop_message err = Inr m \<Longrightarrow>
   lru_get batch k = None \<Longrightarrow>
   cs \<noteq> [] \<Longrightarrow>
     \<exists>b e. errorBatch (enqueue_many X st ch err src cs) = Some b \<and> lru_get b k = Some e \<and>
       payloads e = map item_of (drop (length cs - 3) cs) \<and>
       length (payloads e) = min (length cs) 3 \<and>
       count e = length cs"
proof -
  assume a: "errorBatch st = Some batch"
     "createErrorKey X (or_string ch (channel (conf st))) err (Some src) = Inr k"
     "prop_message err = Inr m" "lru_get batch k = None" "cs \<noteq> []"
  obtain c cs1 where cs: "cs = c # cs1"
    using a(5) by (cases cs) auto
  let ?e1 = "\<lparr>errorMessage = m, sourceName = src, reqChannel = or_string ch (channel (conf st)),
           payloads = [item_of c], count = 1, firstSeen = snd (snd c), lastSeen = snd (snd c)\<rparr>"
  let ?b1 = "lru_set batch k ?e1"
  let ?st1 = "st\<lparr>errorBatch := Some ?b1\<rparr>"
  have step: "logErrorEnqueue X st ch err src (fst c) (fst (snd c)) (snd (snd c)) = (Resolved JUndefined, ?st1)"
    using enqueue_new [OF a(1) a(2) a(4) a(3)] by (simp add: item_of_def)
  have k1: "createErrorKey X (or_string ch (channel (conf ?st1))) err (Some src) = Inr k"
    using a(2) by simp
  obtain b2 e2 where r: "errorBatch (enqueue_many X ?st1 ch err src cs1) = Some b2" "lru_get b2 k = Some e2"
      "payloads e2 = drop (length (payloads ?e1 @ map item_of cs1) - 3) (payloads ?e1 @ map item_of cs1)"
      "count e2 = count ?e1 + length cs1"
    using enqueue_many_existing [of ?st1 ?b1 X ch err src k ?e1 cs1] k1 by auto
  have p: "payloads e2 = map item_of (drop (length cs - 3) cs)"
    using r(3) cs drop_map [of "length cs - 3" item_of cs] by simp
  have l: "length (payloads e2) = min (length cs) 3"
    unfolding p by simp
  show ?thesis
    using step r(1) r(2) r(4) p l cs by simp
qed

theorem payload_window_last_three_witness:
  "errorBatch (new_GrcSlack mockConf True :: string grc_slack) = Some [] \<and>
   createErrorKey mock_node (or_string (Some ''test-channel'') (channel (conf (new_GrcSlack mockConf True :: string grc_slack))))
       (new_Error ''Test error'') (Some ''testFunction'') = Inr ''test-channel:testFunction:sha1-Test error'' \<and>
   prop_message (new_Error ''Test error'') = Inr (JStr ''Test error'') \<and>
   lru_get ([] :: string lru) ''test-channel:testFunction:sha1-Test error'' = None \<and>
   (\<exists>b e. errorBatch (enqueue_many mock_node (new_GrcSlack mockConf True) (Some ''test-channel'')
                (new_Error ''Test error'') ''testFunction''
                [(''p1'', [], 1), (''p2'', [''x''], 2), (''p3'', [], 3), (''p4'', [], 4), (''p5'', [''y''], 5)]) = Some b \<and>
          lru_get b ''test-channel:testFunction:sha1-Test error'' = Some e \<and>
          payloads e = [\<lparr>payload = ''p3'', extras = []\<rparr>, \<lparr>payload = ''p4'', extras = []\<rparr>,
                        \<lparr>payload = ''p5'', extras = [''y'']\<rparr>] \<and>
          length (payloads e) = 3 \<and> count e = 5)"
proof -
  have h1: "errorBatch (new_GrcSlack mockConf True :: string grc_slack) = Some []"
    by (simp add: new_GrcSlack_def mockConf_def)
  have h2: "createErrorKey mock_node (or_string (Some ''test-channel'') (channel (conf (new_GrcSlack mockConf True :: string grc_slack))))
       (new_Error ''Test error'') (Some ''testFunction'') = Inr ''test-channel:testFunction:sha1-Test error''"
    by (simp add: createErrorKey_def errorMsg_of_def sha1_of_def new_Error_def mock_node_def
          createErrorGroupKey_def or_string_def Let_def)
  have h3: "prop_message (new_Error ''Test error'') = Inr (JStr ''Test error'')"
    by (simp add: new_Error_def Let_def)
  have h4: "lru_get ([] :: string lru) ''test-channel:testFunction:sha1-Test error'' = None"
    by (simp add: lru_get_def)
  show ?thesis
    using h1 h2 h3 h4 payload_window_last_three [OF h1 h2 h3 h4,
      of "[(''p1'', [], 1), (''p2'', [''x''], 2), (''p3'', [], 3), (''p4'', [], 4), (''p5'', [''y''], 5)]"]
    by (auto simp add: item_of_def eval_nat_numeral simp del: enqueue_many.simps)
qed


section \<open>The length of a report\<close>

text \<open>
  C5, as the code has it. Write \<open>H\<close> for the header of the report and \<open>L\<close> for
  \<open>maxMessageLength\<close> (4000 when unset). The loops visit the payload lines of the first ten
  error types in order; line \<open>k\<close> of type \<open>i\<close> fits when the message built so far
  (\<open>rendered_upto X H errs i k\<close>: the types before \<open>i\<close> in full, the header of type \<open>i\<close> and
  its first \<open>k\<close> payload lines) stays within \<open>L\<close> with that line appended. Only payload lines
  are tested; the header of the report and the header of each type are appended untested.

  \<^item> If every payload line fits, the report is \<open>H\<close>, the first ten types in full, and the
    note \<open>... and N more error types\<close> when there are more than ten; no truncation marker.
  \<^item> If line \<open>k\<close> of type \<open>i\<close> is the first that does not fit, the report is the message
    built so far followed by the marker \<open>... message truncated (N more error types)\<close>, and
    nothing follows the marker: every line before was appended, that line and all later
    content were not.

  The message before the marker is within \<open>L\<close> when a payload line of the current type has
  been appended (\<open>0 < k\<close>); in general it is within \<open>L\<close> plus the lengths of \<open>H\<close> and of the
  type headers appended so far.
\<close>

theorem batched_report_stops_at_first_line_that_does_not_fit:
  "((\<forall>i k. i < length errs \<and> i < 10 \<and> k < length (payloads (snd (errs ! i))) \<longrightarrow>
        length (rendered_upto X (report_header src totalErrors (length errs) (formatTimeRange X earliest latest)) errs i k)
          + length (payload_line X (payloads (snd (errs ! i)) ! k)) \<le> maxMessageLength_of c) \<longrightarrow>
      batched_report X c src errs totalErrors earliest latest =
        report_header src totalErrors (length errs) (formatTimeRange X earliest latest)
          @ concat (map (full_type X) (take 10 errs))
          @ (if 10 < length errs
             then CHR 0x0A # ''... and '' @ string_of_nat (length errs - 10) @ '' more error types''
             else []) \<and>
      length (report_header src totalErrors (length errs) (formatTimeRange X earliest latest)
                @ concat (map (full_type X) (take 10 errs)))
        \<le> maxMessageLength_of c
             + length (report_header src totalErrors (length errs) (formatTimeRange X earliest latest))
             + (\<Sum>e\<leftarrow>take 10 errs. length (type_header (snd e)))) \<and>
   (i < length errs \<and> i < 10 \<and> k < length (payloads (snd (errs ! i))) \<and>
    maxMessageLength_of c
      < length (rendered_upto X (report_header src totalErrors (length errs) (formatTimeRange X earliest latest)) errs i k)
          + length (payload_line X (payloads (snd (errs ! i)) ! k)) \<and>
    (\<forall>i' k'. i' < length errs \<and> k' < length (payloads (snd (errs ! i'))) \<and> (i' < i \<or> i' = i \<and> k' < k) \<longrightarrow>
        length (rendered_upto X (report_header src totalErrors (length errs) (formatTimeRange X earliest latest)) errs i' k')
          + length (payload_line X (payloads (snd (errs ! i')) ! k')) \<le> maxMessageLength_of c) \<longrightarrow>
      batched_report X c src errs totalErrors earliest latest =
        rendered_upto X (report_header src totalErrors (length errs) (formatTimeRange X earliest latest)) errs i k
          @ CHR 0x0A # ''... message truncated (''
          @ string_of_int (int (length errs) - indexOf errs (errs ! i)) @ '' more error types)'' \<and>
      length (rendered_upto X (report_header src totalErrors (length errs) (formatTimeRange X earliest latest)) errs i k)
        \<le> maxMessageLength_of c
             + length (report_header src totalErrors (length errs) (formatTimeRange X earliest latest))
             + (\<Sum>e\<leftarrow>take (Suc i) errs. length (type_header (snd e))) \<and>
      (0 < k \<longrightarrow>
         length (rendered_upto X (report_header src totalErrors (length errs) (formatTimeRange X earliest latest)) errs i k)
           \<le> maxMessageLength_of c))"
proof (intro conjI impI)
  let ?h = "report_header src totalErrors (length errs) (formatTimeRange X earliest latest)"
  let ?L = "maxMessageLength_of c"
  {
    assume a: "\<forall>i k. i < length errs \<and> i < 10 \<and> k < length (payloads (snd (errs ! i))) \<longrightarrow>
        length (rendered_upto X ?h errs i k) + length (payload_line X (payloads (snd (errs ! i)) ! k)) \<le> ?L"
    have f: "length (rendered_upto X ?h errs i k) + length (payload_line X (payloads (snd (errs ! i)) ! k)) \<le> ?L"
      if "i < length errs" "i < 10" "k < length (payloads (snd (errs ! i)))" for i k
      using a that by blast
    note r = batched_report_all_fit [where X=X and c=c and src=src and errs=errs and totalErrors=totalErrors
               and earliest=earliest and latest=latest, OF f, unfolded more_types_note_text]
    show "batched_report X c src errs totalErrors earliest latest =
        ?h @ concat (map (full_type X) (take 10 errs))
          @ (if 10 < length errs
             then CHR 0x0A # ''... and '' @ string_of_nat (length errs - 10) @ '' more error types''
             else [])"
      using r by (rule conjunct1)
    show "length (?h @ concat (map (full_type X) (take 10 errs)))
        \<le> ?L + length ?h + (\<Sum>e\<leftarrow>take 10 errs. length (type_header (snd e)))"
      using r by (rule conjunct2)
  }
  {
    assume a: "i < length errs \<and> i < 10 \<and> k < length (payloads (snd (errs ! i))) \<and>
      ?L < length (rendered_upto X ?h errs i k) + length (payload_line X (payloads (snd (errs ! i)) ! k)) \<and>
      (\<forall>i' k'. i' < length errs \<and> k' < length (payloads (snd (errs ! i'))) \<and> (i' < i \<or> i' = i \<and> k' < k) \<longrightarrow>
        length (rendered_upto X ?h errs i' k') + length (payload_line X (payloads (snd (errs ! i')) ! k')) \<le> ?L)"
    have i: "i < length errs" and i10: "i < 10" and k: "k < length (payloads (snd (errs ! i)))"
      and mis: "?L < length (rendered_upto X ?h errs i k) + length (payload_line X (payloads (snd (errs ! i)) ! k))"
      using a by blast+
    have f: "length (rendered_upto X ?h errs i' k') + length (payload_line X (payloads (snd (errs ! i')) ! k')) \<le> ?L"
      if "i' < length errs" "k' < length (payloads (snd (errs ! i')))" "i' < i \<or> i' = i \<and> k' < k" for i' k'
      using a that by blast
    note r = batched_report_first_misfit [OF i i10 k mis f, unfolded truncation_marker_text]
    show "batched_report X c src errs totalErrors earliest latest =
        rendered_upto X ?h errs i k
          @ CHR 0x0A # ''... message truncated (''
          @ string_of_int (int (length errs) - indexOf errs (errs ! i)) @ '' more error types)''"
      using r by (rule conjunct1)
    show "length (rendered_upto X ?h errs i k)
        \<le> ?L + length ?h + (\<Sum>e\<leftarrow>take (Suc i) errs. length (type_header (snd e)))"
      using r by blast
    assume "0 < k"
    then show "length (rendered_upto X ?h errs i k) \<le> ?L"
      using r by blast
  }
qed

theorem batched_report_stops_at_first_line_that_does_not_fit_witness:
  "maxMessageLength_of limit200_conf = 200 \<and>
   length two_type_errors = 2 \<and>
   map (\<lambda>e. length (payloads (snd e))) two_type_errors = [1, 1] \<and>
   report_header ''testFunc'' 2 (length two_type_errors) (formatTimeRange mock_node (Finite 0) (Finite 0))
     = ''*Batched Error Report - testFunc*'' @ [CHR 0x0A]
       @ ''*Summary:* 2 errors across 2 types (10:00:00)'' @ [CHR 0x0A, CHR 0x0A] \<and>
   length (rendered_upto mock_node
             (report_header ''testFunc'' 2 (length two_type_errors) (formatTimeRange mock_node (Finite 0) (Finite 0)))
             two_type_errors 0 0)
     + length (payload_line mock_node (payloads (snd (two_type_errors ! 0)) ! 0)) = 121 \<and>
   length (rendered_upto mock_node
             (report_header ''testFunc'' 2 (length two_type_errors) (formatTimeRange mock_node (Finite 0) (Finite 0)))
             two_type_errors 1 0)
     + length (payload_line mock_node (payloads (snd (two_type_errors ! 1)) ! 0)) = 259 \<and>
   batched_report mock_node limit200_conf ''testFunc'' two_type_errors 2 (Finite 0) (Finite 0)
     = ''*Batched Error Report - testFunc*'' @ [CHR 0x0A]
       @ ''*Summary:* 2 errors across 2 types (10:00:00)'' @ [CHR 0x0A, CHR 0x0A]
       @ bullet @ '' *Error 0* (1x)'' @ [CHR 0x0A] @ ''  Payloads:'' @ [CHR 0x0A]
       @ ''    - {}'' @ [CHR 0x0A]
       @ bullet @ '' *Error 1* (1x)'' @ [CHR 0x0A] @ ''  Payloads:'' @ [CHR 0x0A]
       @ [CHR 0x0A] @ ''... message truncated (1 more error types)'' \<and>
   length (batched_report mock_node limit200_conf ''testFunc'' two_type_errors 2 (Finite 0) (Finite 0)) = 195 \<and>
   maxMessageLength_of mockConf = 4000 \<and>
   batched_report mock_node mockConf ''testFunc'' two_type_errors 2 (Finite 0) (Finite 0)
     = ''*Batched Error Report - testFunc*'' @ [CHR 0x0A]
       @ ''*Summary:* 2 errors across 2 types (10:00:00)'' @ [CHR 0x0A, CHR 0x0A]
       @ bullet @ '' *Error 0* (1x)'' @ [CHR 0x0A] @ ''  Payloads:'' @ [CHR 0x0A]
       @ ''    - {}'' @ [CHR 0x0A]
       @ bullet @ '' *Error 1* (1x)'' @ [CHR 0x0A] @ ''  Payloads:'' @ [CHR 0x0A]
       @ ''    - '' @ replicate 100 CHR ''d'' @ [CHR 0x0A]"
proof -
  let ?h = "report_header ''testFunc'' 2 (length two_type_errors) (formatTimeRange mock_node (Finite 0) (Finite 0))"
  have L: "maxMessageLength_of limit200_conf = 200" "maxMessageLength_of mockConf = 4000"
    by code_simp+
  have n: "length two_type_errors = 2" "map (\<lambda>e. length (payloads (snd e))) two_type_errors = [1, 1]"
    by (simp_all add: two_type_errors_def)
  have p: "length (payloads (snd (two_type_errors ! 0))) = 1" "length (payloads (snd (two_type_errors ! 1))) = 1"
    by (simp_all add: two_type_errors_def)
  have h: "?h = ''*Batched Error Report - testFunc*'' @ [CHR 0x0A]
       @ ''*Summary:* 2 errors across 2 types (10:00:00)'' @ [CHR 0x0A, CHR 0x0A]"
    by code_simp
  have f0: "length (rendered_upto mock_node ?h two_type_errors 0 0)
     + length (payload_line mock_node (payloads (snd (two_type_errors ! 0)) ! 0)) = 121"
    by code_simp
  have f1: "length (rendered_upto mock_node ?h two_type_errors 1 0)
     + length (payload_line mock_node (payloads (snd (two_type_errors ! 1)) ! 0)) = 259"
    by code_simp
  have u1: "rendered_upto mock_node ?h two_type_errors 1 0
     = ''*Batched Error Report - testFunc*'' @ [CHR 0x0A]
       @ ''*Summary:* 2 errors across 2 types (10:00:00)'' @ [CHR 0x0A, CHR 0x0A]
       @ bullet @ '' *Error 0* (1x)'' @ [CHR 0x0A] @ ''  Payloads:'' @ [CHR 0x0A]
       @ ''    - {}'' @ [CHR 0x0A]
       @ bullet @ '' *Error 1* (1x)'' @ [CHR 0x0A] @ ''  Payloads:'' @ [CHR 0x0A]"
    by code_simp
  have u2: "?h @ concat (map (full_type mock_node) (take 10 two_type_errors))
     = ''*Batched Error Report - testFunc*'' @ [CHR 0x0A]
       @ ''*Summary:* 2 errors across 2 types (10:00:00)'' @ [CHR 0x0A, CHR 0x0A]
       @ bullet @ '' *Error 0* (1x)'' @ [CHR 0x0A] @ ''  Payloads:'' @ [CHR 0x0A]
       @ ''    - {}'' @ [CHR 0x0A]
       @ bullet @ '' *Error 1* (1x)'' @ [CHR 0x0A] @ ''  Payloads:'' @ [CHR 0x0A]
       @ ''    - '' @ replicate 100 CHR ''d'' @ [CHR 0x0A]"
    by code_simp
  have ix: "string_of_int (int (length two_type_errors) - indexOf two_type_errors (two_type_errors ! 1)) = ''1''"
    by code_simp
  have len: "length (''*Batched Error Report - testFunc*'' @ [CHR 0x0A]
       @ ''*Summary:* 2 errors across 2 types (10:00:00)'' @ [CHR 0x0A, CHR 0x0A]
       @ bullet @ '' *Error 0* (1x)'' @ [CHR 0x0A] @ ''  Payloads:'' @ [CHR 0x0A]
       @ ''    - {}'' @ [CHR 0x0A]
       @ bullet @ '' *Error 1* (1x)'' @ [CHR 0x0A] @ ''  Payloads:'' @ [CHR 0x0A]
       @ [CHR 0x0A] @ ''... message truncated (1 more error types)'') = 195"
    by code_simp
  have all_fit: "\<forall>i k. i < length two_type_errors \<and> i < 10 \<and> k < length (payloads (snd (two_type_errors ! i))) \<longrightarrow>
        length (rendered_upto mock_node ?h two_type_errors i k)
          + length (payload_line mock_node (payloads (snd (two_type_errors ! i)) ! k)) \<le> maxMessageLength_of mockConf"
  proof (intro allI impI)
    fix i k
    assume a: "i < length two_type_errors \<and> i < 10 \<and> k < length (payloads (snd (two_type_errors ! i)))"
    have "i = 0 \<or> i = 1" using a n(1) by auto
    then show "length (rendered_upto mock_node ?h two_type_errors i k)
          + length (payload_line mock_node (payloads (snd (two_type_errors ! i)) ! k)) \<le> maxMessageLength_of mockConf"
    proof
      assume i0: "i = 0"
      have "k = 0" using a p(1) unfolding i0 by simp
      then show ?thesis using f0 L(2) i0 by simp
    next
      assume i1: "i = 1"
      have "k = 0" using a p(2) unfolding i1 by simp
      then show ?thesis using f1 L(2) i1 by simp
    qed
  qed
  have earlier_fit: "\<forall>i' k'. i' < length two_type_errors \<and> k' < length (payloads (snd (two_type_errors ! i'))) \<and>
        (i' < 1 \<or> i' = 1 \<and> k' < 0) \<longrightarrow>
        length (rendered_upto mock_node ?h two_type_errors i' k')
          + length (payload_line mock_node (payloads (snd (two_type_errors ! i')) ! k')) \<le> maxMessageLength_of limit200_conf"
  proof (intro allI impI)
    fix i' k'
    assume a: "i' < length two_type_errors \<and> k' < length (payloads (snd (two_type_errors ! i'))) \<and>
        (i' < 1 \<or> i' = 1 \<and> k' < 0)"
    have i0: "i' = 0" using a by simp
    have "k' = 0" using a p(1) unfolding i0 by simp
    then show "length (rendered_upto mock_node ?h two_type_errors i' k')
          + length (payload_line mock_node (payloads (snd (two_type_errors ! i')) ! k')) \<le> maxMessageLength_of limit200_conf"
      using f0 L(1) i0 by simp
  qed
  have mis: "maxMessageLength_of limit200_conf
      < length (rendered_upto mock_node ?h two_type_errors 1 0)
          + length (payload_line mock_node (payloads (snd (two_type_errors ! 1)) ! 0))"
    using f1 L(1) by simp
  note t1 = batched_report_stops_at_first_line_that_does_not_fit
    [where X = mock_node and c = limit200_conf and src = "''testFunc''" and errs = two_type_errors
       and totalErrors = 2 and earliest = "Finite 0" and latest = "Finite 0" and i = 1 and k = 0]
  note t2 = batched_report_stops_at_first_line_that_does_not_fit
    [where X = mock_node and c = mockConf and src = "''testFunc''" and errs = two_type_errors
       and totalErrors = 2 and earliest = "Finite 0" and latest = "Finite 0" and i = 0 and k = 0]
  have r1: "batched_report mock_node limit200_conf ''testFunc'' two_type_errors 2 (Finite 0) (Finite 0) =
        rendered_upto mock_node ?h two_type_errors 1 0
          @ CHR 0x0A # ''... message truncated (''
          @ string_of_int (int (length two_type_errors) - indexOf two_type_errors (two_type_errors ! 1))
          @ '' more error types)''"
  proof -
    have i1: "1 < length two_type_errors" using n(1) by simp
    have i10: "(1::nat) < 10" by simp
    have k0: "0 < length (payloads (snd (two_type_errors ! 1)))" using p(2) by simp
    have hyp: "1 < length two_type_errors \<and> (1::nat) < 10 \<and> 0 < length (payloads (snd (two_type_errors ! 1))) \<and>
      maxMessageLength_of limit200_conf
        < length (rendered_upto mock_node ?h two_type_errors 1 0)
            + length (payload_line mock_node (payloads (snd (two_type_errors ! 1)) ! 0)) \<and>
      (\<forall>i' k'. i' < length two_type_errors \<and> k' < length (payloads (snd (two_type_errors ! i'))) \<and>
          (i' < 1 \<or> i' = 1 \<and> k' < 0) \<longrightarrow>
          length (rendered_upto mock_node ?h two_type_errors i' k')
            + length (payload_line mock_node (payloads (snd (two_type_errors ! i')) ! k')) \<le> maxMessageLength_of limit200_conf)"
      by (intro conjI) (rule i1, rule i10, rule k0, rule mis, rule earlier_fit)
    show ?thesis
      by (rule conjunct1 [OF mp [OF conjunct2 [OF t1] hyp]])
  qed
  have r2: "batched_report mock_node mockConf ''testFunc'' two_type_errors 2 (Finite 0) (Finite 0) =
        ?h @ concat (map (full_type mock_node) (take 10 two_type_errors))
          @ (if 10 < length two_type_errors
             then CHR 0x0A # ''... and '' @ string_of_nat (length two_type_errors - 10) @ '' more error types''
             else [])"
    by (rule conjunct1 [OF mp [OF conjunct1 [OF t2] all_fit]])
  have r1': "batched_report mock_node limit200_conf ''testFunc'' two_type_errors 2 (Finite 0) (Finite 0)
     = ''*Batched Error Report - testFunc*'' @ [CHR 0x0A]
       @ ''*Summary:* 2 errors across 2 types (10:00:00)'' @ [CHR 0x0A, CHR 0x0A]
       @ bullet @ '' *Error 0* (1x)'' @ [CHR 0x0A] @ ''  Payloads:'' @ [CHR 0x0A]
       @ ''    - {}'' @ [CHR 0x0A]
       @ bullet @ '' *Error 1* (1x)'' @ [CHR 0x0A] @ ''  Payloads:'' @ [CHR 0x0A]
       @ [CHR 0x0A] @ ''... message truncated (1 more error types)''"
    unfolding r1 u1 ix by simp
  have r2': "batched_report mock_node mockConf ''testFunc'' two_type_errors 2 (Finite 0) (Finite 0)
     = ''*Batched Error Report - testFunc*'' @ [CHR 0x0A]
       @ ''*Summary:* 2 errors across 2 types (10:00:00)'' @ [CHR 0x0A, CHR 0x0A]
       @ bullet @ '' *Error 0* (1x)'' @ [CHR 0x0A] @ ''  Payloads:'' @ [CHR 0x0A]
       @ ''    - {}'' @ [CHR 0x0A]
       @ bullet @ '' *Error 1* (1x)'' @ [CHR 0x0A] @ ''  Payloads:'' @ [CHR 0x0A]
       @ ''    - '' @ replicate 100 CHR ''d'' @ [CHR 0x0A]"
    using r2 n(1) unfolding u2 [symmetric] by simp
  have len': "length (batched_report mock_node limit200_conf ''testFunc'' two_type_errors 2 (Finite 0) (Finite 0)) = 195"
    unfolding r1' by (rule len)
  show ?thesis
    by (intro conjI) (rule L(1), rule n(1), rule n(2), rule h, rule f0, rule f1, rule r1', rule len', rule L(2), rule r2')
qed

text \<open>
  The claim as stated fails: with the limit 200 and one error whose message is 300
  characters long, the first payload line does not fit, the message built so far (the two
  headers) is 405 characters, and the report is 448 characters and ends with the marker of
  43 characters: 205 past the limit and the marker.
\<close>

theorem batched_report_counterexample:
  "maxMessageLength_of limit200_conf = 200 \<and>
   length (CHR 0x0A # ''... message truncated (1 more error types)'') = 43 \<and>
   length (batched_report mock_node limit200_conf ''testFunc'' long_message_errors 1 (Finite 0) (Finite 0)) = 448 \<and>
   drop 405 (batched_report mock_node limit200_conf ''testFunc'' long_message_errors 1 (Finite 0) (Finite 0))
     = CHR 0x0A # ''... message truncated (1 more error types)''"
  by code_simp

section \<open>The count in the truncation marker\<close>

text \<open>
  C10. For the errors of a group (distinct objects, identified by their keys): when payload
  line \<open>k\<close> of the type at index \<open>i\<close> (zero-based, among the first ten) is the first line
  that does not fit, the report is the message built so far followed by the text
  \<open>... message truncated (N more error types)\<close>, where \<open>N\<close> is, in decimal, the number of
  types of the group minus \<open>i\<close>. \<open>N\<close> is at least 1: the type being rendered, whose header
  is already in the report, is counted among the types that are "more".
\<close>

theorem truncation_marker_counts_from_current_type:
  "distinct (map fst errs) \<Longrightarrow>
   i < length errs \<Longrightarrow> i < 10 \<Longrightarrow> k < length (payloads (snd (errs ! i))) \<Longrightarrow>
   maxMessageLength_of c
     < length (rendered_upto X (report_header src totalErrors (length errs) (formatTimeRange X earliest latest)) errs i k)
         + length (payload_line X (payloads (snd (errs ! i)) ! k)) \<Longrightarrow>
   \<forall>i' k'. i' < length errs \<and> k' < length (payloads (snd (errs ! i'))) \<and> (i' < i \<or> i' = i \<and> k' < k) \<longrightarrow>
       length (rendered_upto X (report_header src totalErrors (length errs) (formatTimeRange X earliest latest)) errs i' k')
         + length (payload_line X (payloads (snd (errs ! i')) ! k')) \<le> maxMessageLength_of c \<Longrightarrow>
     batched_report X c src errs totalErrors earliest latest =
       rendered_upto X (report_header src totalErrors (length errs) (formatTimeRange X earliest latest)) errs i k
         @ CHR 0x0A # ''... message truncated ('' @ string_of_nat (length errs - i) @ '' more error types)'' \<and>
     1 \<le> length errs - i"
proof -
  let ?h = "report_header src totalErrors (length errs) (formatTimeRange X earliest latest)"
  let ?L = "maxMessageLength_of c"
  assume d: "distinct (map fst errs)"
    and i: "i < length errs" and i10: "i < 10" and k: "k < length (payloads (snd (errs ! i)))"
    and mis: "?L < length (rendered_upto X ?h errs i k) + length (payload_line X (payloads (snd (errs ! i)) ! k))"
    and a: "\<forall>i' k'. i' < length errs \<and> k' < length (payloads (snd (errs ! i'))) \<and> (i' < i \<or> i' = i \<and> k' < k) \<longrightarrow>
       length (rendered_upto X ?h errs i' k') + length (payload_line X (payloads (snd (errs ! i')) ! k')) \<le> ?L"
  have f: "length (rendered_upto X ?h errs i' k') + length (payload_line X (payloads (snd (errs ! i')) ! k')) \<le> ?L"
    if "i' < length errs" "k' < length (payloads (snd (errs ! i')))" "i' < i \<or> i' = i \<and> k' < k" for i' k'
    using a that by blast
  have d1: "distinct errs" using d by (simp add: distinct_map)
  have ix: "indexOf errs (errs ! i) = int i"
    using d1 i by (rule indexOf_nth_distinct)
  have n: "int (length errs) - int i = int (length errs - i)"
    using i by simp
  have r: "batched_report X c src errs totalErrors earliest latest =
       rendered_upto X ?h errs i k @ truncation_marker (int (length errs) - indexOf errs (errs ! i))"
    using batched_report_first_misfit [OF i i10 k mis f] by (rule conjunct1)
  have "batched_report X c src errs totalErrors earliest latest =
       rendered_upto X ?h errs i k
         @ CHR 0x0A # ''... message truncated ('' @ string_of_nat (length errs - i) @ '' more error types)''"
    using r unfolding ix n truncation_marker_text string_of_int_nat .
  moreover have "1 \<le> length errs - i"
    using i by simp
  ultimately show ?thesis by (rule conjI)
qed

theorem truncation_marker_counts_from_current_type_witness:
  "distinct (map fst two_type_errors) \<and>
   maxMessageLength_of limit200_conf = 200 \<and>
   length two_type_errors = 2 \<and>
   map (\<lambda>e. length (payloads (snd e))) two_type_errors = [1, 1] \<and>
   length (rendered_upto mock_node
             (report_header ''testFunc'' 2 (length two_type_errors) (formatTimeRange mock_node (Finite 0) (Finite 0)))
             two_type_errors 0 0)
     + length (payload_line mock_node (payloads (snd (two_type_errors ! 0)) ! 0)) = 121 \<and>
   length (rendered_upto mock_node
             (report_header ''testFunc'' 2 (length two_type_errors) (formatTimeRange mock_node (Finite 0) (Finite 0)))
             two_type_errors 1 0)
     + length (payload_line mock_node (payloads (snd (two_type_errors ! 1)) ! 0)) = 259 \<and>
   batched_report mock_node limit200_conf ''testFunc'' two_type_errors 2 (Finite 0) (Finite 0) =
     rendered_upto mock_node
       (report_header ''testFunc'' 2 (length two_type_errors) (formatTimeRange mock_node (Finite 0) (Finite 0)))
       two_type_errors 1 0
     @ CHR 0x0A # ''... message truncated (1 more error types)'' \<and>
   distinct (map fst (rev two_type_errors)) \<and>
   length (rendered_upto mock_node
             (report_header ''testFunc'' 2 (length (rev two_type_errors)) (formatTimeRange mock_node (Finite 0) (Finite 0)))
             (rev two_type_errors) 0 0)
     + length (payload_line mock_node (payloads (snd (rev two_type_errors ! 0)) ! 0)) = 219 \<and>
   batched_report mock_node limit200_conf ''testFunc'' (rev two_type_errors) 2 (Finite 0) (Finite 0) =
     rendered_upto mock_node
       (report_header ''testFunc'' 2 (length (rev two_type_errors)) (formatTimeRange mock_node (Finite 0) (Finite 0)))
       (rev two_type_errors) 0 0
     @ CHR 0x0A # ''... message truncated (2 more error types)''"
proof -
  let ?h = "report_header ''testFunc'' 2 (length two_type_errors) (formatTimeRange mock_node (Finite 0) (Finite 0))"
  let ?hr = "report_header ''testFunc'' 2 (length (rev two_type_errors)) (formatTimeRange mock_node (Finite 0) (Finite 0))"
  have d: "distinct (map fst two_type_errors)" "distinct (map fst (rev two_type_errors))"
    by (simp_all add: two_type_errors_def)
  have L: "maxMessageLength_of limit200_conf = 200"
    by code_simp
  have n: "length two_type_errors = 2" "map (\<lambda>e. length (payloads (snd e))) two_type_errors = [1, 1]"
    by (simp_all add: two_type_errors_def)
  have p: "length (payloads (snd (two_type_errors ! 0))) = 1" "length (payloads (snd (two_type_errors ! 1))) = 1"
      "length (payloads (snd (rev two_type_errors ! 0))) = 1"
    by (simp_all add: two_type_errors_def)
  have f0: "length (rendered_upto mock_node ?h two_type_errors 0 0)
     + length (payload_line mock_node (payloads (snd (two_type_errors ! 0)) ! 0)) = 121"
    by code_simp
  have f1: "length (rendered_upto mock_node ?h two_type_errors 1 0)
     + length (payload_line mock_node (payloads (snd (two_type_errors ! 1)) ! 0)) = 259"
    by code_simp
  have g0: "length (rendered_upto mock_node ?hr (rev two_type_errors) 0 0)
     + length (payload_line mock_node (payloads (snd (rev two_type_errors ! 0)) ! 0)) = 219"
    by code_simp
  have s: "string_of_nat (length two_type_errors - 1) = ''1''" "string_of_nat (length (rev two_type_errors) - 0) = ''2''"
    by code_simp+
  have earlier_fit: "\<forall>i' k'. i' < length two_type_errors \<and> k' < length (payloads (snd (two_type_errors ! i'))) \<and>
        (i' < 1 \<or> i' = 1 \<and> k' < 0) \<longrightarrow>
        length (rendered_upto mock_node ?h two_type_errors i' k')
          + length (payload_line mock_node (payloads (snd (two_type_errors ! i')) ! k')) \<le> maxMessageLength_of limit200_conf"
  proof (intro allI impI)
    fix i' k'
    assume a: "i' < length two_type_errors \<and> k' < length (payloads (snd (two_type_errors ! i'))) \<and>
        (i' < 1 \<or> i' = 1 \<and> k' < 0)"
    have i0: "i' = 0" using a by simp
    have "k' = 0" using a p(1) unfolding i0 by simp
    then show "length (rendered_upto mock_node ?h two_type_errors i' k')
          + length (payload_line mock_node (payloads (snd (two_type_errors ! i')) ! k')) \<le> maxMessageLength_of limit200_conf"
      using f0 L i0 by simp
  qed
  have none_earlier: "\<forall>i' k'. i' < length (rev two_type_errors) \<and> k' < length (payloads (snd (rev two_type_errors ! i'))) \<and>
        (i' < 0 \<or> i' = 0 \<and> k' < 0) \<longrightarrow>
        length (rendered_upto mock_node ?hr (rev two_type_errors) i' k')
          + length (payload_line mock_node (payloads (snd (rev two_type_errors ! i')) ! k')) \<le> maxMessageLength_of limit200_conf"
    by simp
  have mis1: "maxMessageLength_of limit200_conf
      < length (rendered_upto mock_node ?h two_type_errors 1 0)
          + length (payload_line mock_node (payloads (snd (two_type_errors ! 1)) ! 0))"
    using f1 L by simp
  have mis2: "maxMessageLength_of limit200_conf
      < length (rendered_upto mock_node ?hr (rev two_type_errors) 0 0)
          + length (payload_line mock_node (payloads (snd (rev two_type_errors ! 0)) ! 0))"
    using g0 L by simp
  have i1: "1 < length two_type_errors" "(1::nat) < 10" "0 < length (payloads (snd (two_type_errors ! 1)))"
    using n(1) p(2) by simp_all
  have i2: "0 < length (rev two_type_errors)" "(0::nat) < 10" "0 < length (payloads (snd (rev two_type_errors ! 0)))"
    using n(1) p(3) by simp_all
  note t1 = truncation_marker_counts_from_current_type
    [where X = mock_node and c = limit200_conf and src = "''testFunc''" and errs = two_type_errors
       and totalErrors = 2 and earliest = "Finite 0" and latest = "Finite 0" and i = 1 and k = 0,
     OF d(1) i1(1) i1(2) i1(3) mis1 earlier_fit]
  note t2 = truncation_marker_counts_from_current_type
    [where X = mock_node and c = limit200_conf and src = "''testFunc''" and errs = "rev two_type_errors"
       and totalErrors = 2 and earliest = "Finite 0" and latest = "Finite 0" and i = 0 and k = 0,
     OF d(2) i2(1) i2(2) i2(3) mis2 none_earlier]
  have r1: "batched_report mock_node limit200_conf ''testFunc'' two_type_errors 2 (Finite 0) (Finite 0) =
     rendered_upto mock_node ?h two_type_errors 1 0 @ CHR 0x0A # ''... message truncated (1 more error types)''"
    using conjunct1 [OF t1] unfolding s by simp
  have r2: "batched_report mock_node limit200_conf ''testFunc'' (rev two_type_errors) 2 (Finite 0) (Finite 0) =
     rendered_upto mock_node ?hr (rev two_type_errors) 0 0 @ CHR 0x0A # ''... message truncated (2 more error types)''"
    using conjunct1 [OF t2] unfolding s by simp
  show ?thesis
    by (intro conjI) (rule d(1), rule L, rule n(1), rule n(2), rule f0, rule f1, rule r1, rule d(2), rule g0, rule r2)
qed

section \<open>One report per channel and source\<close>




text \<open>
  The hypothesis on the channels is there because a group is keyed by the text
  \<open>reqChannel:sourceName\<close>: the pairs (\<open>a:b\<close>, \<open>c\<close>) and (\<open>a\<close>, \<open>b:c\<close>) share the key
  \<open>a:b:c\<close>. Two enqueues under these pairs leave two entries, which the flush puts into
  one group and one report.
\<close>

lemma group_key_collision:
  "snd (logErrorEnqueue mock_node
         (snd (logErrorEnqueue mock_node (new_GrcSlack mockConf True)
                 (Some ''a:b'') (new_Error ''Error 1'') ''c'' ''{}'' [] 1))
         (Some ''a'') (new_Error ''Error 2'') ''b:c'' ''{}'' [] 2)
     = instance_with colon_batch \<and>
   map pair_of colon_batch = [(''a:b'', ''c''), (''a'', ''b:c'')] \<and>
   map (\<lambda>g. map fst (errors (snd g))) (group_entries [] colon_batch)
     = [[''a:b:c:sha1-Error 1'', ''a:b:c:sha1-Error 2'']] \<and>
   length (requests (snd (processBatchedErrors mock_node (instance_with colon_batch)))) = 1"
  by code_simp

section \<open>The same error twice\<close>

text \<open>
  C3, as the code has it. Enqueueing \<open>Error('Test error')\<close> twice under channel
  \<open>test-channel\<close> and source \<open>testFunction\<close>, with any two payloads, leaves exactly one stored
  entry with \<open>count = 2\<close> and two payload-window entries, one for each enqueue; the flush
  that follows hands exactly one request to the transport, and its text contains \<open>2x\<close>.
\<close>

theorem same_error_twice_then_flush:
  "(\<exists>k e. errorBatch (enqueue_many mock_node (new_GrcSlack mockConf True) (Some ''test-channel'')
                 (new_Error ''Test error'') ''testFunction'' [(p1, ex1, t1), (p2, ex2, t2)]) = Some [(k, e)] \<and>
          count e = 2 \<and>
          payloads e = [\<lparr>payload = p1, extras = ex1\<rparr>, \<lparr>payload = p2, extras = ex2\<rparr>] \<and>
          length (payloads e) = 2) \<and>
   (\<exists>rq. requests (snd (processBatchedErrors mock_node
             (enqueue_many mock_node (new_GrcSlack mockConf True) (Some ''test-channel'')
                 (new_Error ''Test error'') ''testFunction'' [(p1, ex1, t1), (p2, ex2, t2)]))) = [rq] \<and>
         sublist ''2x'' (req_text rq))"
proof -
  let ?k = "''test-channel:testFunction:sha1-Test error''"
  let ?e = "\<lparr>errorMessage = JStr ''Test error'', sourceName = ''testFunction'', reqChannel = ''test-channel'',
            payloads = [\<lparr>payload = p1, extras = ex1\<rparr>, \<lparr>payload = p2, extras = ex2\<rparr>],
            count = 2, firstSeen = t1, lastSeen = t2\<rparr>"
  let ?st2 = "enqueue_many mock_node (new_GrcSlack mockConf True) (Some ''test-channel'')
                 (new_Error ''Test error'') ''testFunction'' [(p1, ex1, t1), (p2, ex2, t2)]"
  have st2: "?st2 = \<lparr>conf = mockConf, errorBatch = Some [(?k, ?e)], requests = [], console = []\<rparr>"
    by (simp add: logErrorEnqueue_def enqueue_try_def createErrorKey_def errorMsg_of_def sha1_of_def
          new_Error_def mock_node_fields createErrorGroupKey_def lru_get_def or_string_def push_payload_def
          new_GrcSlack_def mockConf_fields Let_def)
  let ?rep = "batched_report mock_node mockConf ''testFunction'' [(?k, ?e)] 2 (Finite t1) (Finite t2)"
  let ?raw = "''Env: test, Error: '' @ ?rep"
  let ?rq = "\<lparr>req_worker = ''rest:ext:slack'', req_action = ''postSlackMsg'', req_channel = ''test-channel'',
             req_text = (if length ?raw > 1024 then take 1024 ?raw else ?raw), req_timeout = 10000\<rparr>"
  have fl: "requests (snd (processBatchedErrors mock_node ?st2)) = [?rq]"
    unfolding st2
    by (simp add: processBatchedErrors_def lru_length_def createErrorGroupKey_def new_group_def add_to_group_def
          sendBatchedErrorMessage_def logError_def logError_text_def message_def mockConf_fields mock_node_fields
          or_string_def or_nat_def Let_def numeral_2_eq_2 [symmetric])
  obtain rest where rest: "?rep = report_header ''testFunction'' 2 (length [(?k, ?e)]) (formatTimeRange mock_node (Finite t1) (Finite t2))
       @ type_header ?e @ rest"
    using batched_report_starts [of mock_node mockConf "''testFunction''" "(?k, ?e)" "[]" 2 "Finite t1" "Finite t2"]
    by auto
  let ?a = "''Env: test, Error: '' @ report_header ''testFunction'' 2 1 (formatTimeRange mock_node (Finite t1) (Finite t2))
       @ bullet @ '' *Test error* (''"
  let ?b = "''x)'' @ [CHR 0x0A] @ ''  Payloads:'' @ [CHR 0x0A] @ rest"
  have raw: "?raw = ?a @ ''2x'' @ tl ?b"
    using rest by (simp add: type_header_def string_of_nat_digit digit_char_def)
  have la: "length ?a + length ''2x'' \<le> 1024"
    by (simp add: report_header_def formatTimeRange_def mock_node_fields bullet_def string_of_nat_digit)
  have s1: "sublist ''2x'' (take 1024 ?raw)"
    unfolding raw using la by (rule sublist_take)
  have s2: "sublist ''2x'' ?raw"
    unfolding raw sublist_def by blast
  have "sublist ''2x'' (req_text ?rq)"
    using s1 s2 by simp
  then show ?thesis using st2 fl by simp
qed

theorem same_error_twice_then_flush_witness:
  "(\<exists>k e. errorBatch (enqueue_many mock_node (new_GrcSlack mockConf True) (Some ''test-channel'')
                 (new_Error ''Test error'') ''testFunction''
                 [(''{to:test1}'', [], 1), (''{to:test2}'', [], 2)]) = Some [(k, e)] \<and>
          count e = 2 \<and>
          payloads e = [\<lparr>payload = ''{to:test1}'', extras = []\<rparr>, \<lparr>payload = ''{to:test2}'', extras = []\<rparr>] \<and>
          length (payloads e) = 2) \<and>
   (\<exists>rq. requests (snd (processBatchedErrors mock_node
             (enqueue_many mock_node (new_GrcSlack mockConf True) (Some ''test-channel'')
                 (new_Error ''Test error'') ''testFunction''
                 [(''{to:test1}'', [], 1), (''{to:test2}'', [], 2)]))) = [rq] \<and>
         sublist ''2x'' (req_text rq))"
  by (rule same_error_twice_then_flush)

text \<open>
  The claim as stated fails: after the two enqueues the entry has count 2 and a window of
  2 payloads, not 3. The first enqueue stores the entry with its one payload and returns.
\<close>

theorem same_error_twice_counterexample:
  "map_option (map (\<lambda>r. (count (snd r), length (payloads (snd r)))))
     (errorBatch (enqueue_many mock_node (new_GrcSlack mockConf True) (Some ''test-channel'')
                 (new_Error ''Test error'') ''testFunction''
                 [(''{to:test1}'', [], 1), (''{to:test2}'', [], 2)]))
   = Some [(2, 2)]"
  by code_simp



end
